theory Spec2Isabelle
  imports Main
begin

section \<open>Image references of Kubernetes workloads (pkg/engine/context/imageutils.go)\<close>

text \<open>
  Go strings are byte sequences; they are modelled as \<^typ>\<open>string\<close>, a list of 8-bit
  characters. The functions of Go's \<^verbatim>\<open>strings\<close> and \<^verbatim>\<open>strconv\<close> packages that
  imageutils.go calls are written out first.
\<close>

subsection \<open>The string helpers of the Go standard library\<close>

text \<open>\<^verbatim>\<open>strings.IndexRune(s, c)\<close>: the index of the first occurrence, -1 when there is none.\<close>

fun IndexRune :: "string \<Rightarrow> char \<Rightarrow> int" where
  "IndexRune [] c = - 1"
| "IndexRune (x # xs) c =
     (if x = c then 0
      else (let i = IndexRune xs c in if i = - 1 then - 1 else i + 1))"

text \<open>\<^verbatim>\<open>strings.LastIndex(s, "/")\<close> for a one-character separator, -1 when there is none.\<close>

fun LastIndex :: "string \<Rightarrow> char \<Rightarrow> int" where
  "LastIndex [] c = - 1"
| "LastIndex (x # xs) c =
     (let i = LastIndex xs c in
      if i = - 1 then (if x = c then 0 else - 1) else i + 1)"

text \<open>\<^verbatim>\<open>strings.ContainsAny(s, chars)\<close>.\<close>

definition ContainsAny :: "string \<Rightarrow> string \<Rightarrow> bool" where
  "ContainsAny s chars = list_ex (\<lambda>c. c \<in> set chars) s"

text \<open>
  \<^verbatim>\<open>strings.ToLower\<close> on ASCII input: the letters A to Z are mapped to a to z, every other
  byte is kept. On a string with a byte outside ASCII Go decodes UTF-8 and consults the Unicode
  tables, which this function does not do: there it may differ from Go. No string the reference
  grammar accepts contains such a byte, and the property of domain defaulting is proved for
  every lower-casing function.
\<close>

definition toLowerChar :: "char \<Rightarrow> char" where
  "toLowerChar c =
     (case map_of (zip ''ABCDEFGHIJKLMNOPQRSTUVWXYZ'' ''abcdefghijklmnopqrstuvwxyz'') c of
        Some l \<Rightarrow> l
      | None \<Rightarrow> c)"

definition ToLower :: "string \<Rightarrow> string" where
  "ToLower s = map toLowerChar s"

text \<open>\<^verbatim>\<open>s[:i]\<close> and \<^verbatim>\<open>s[i:]\<close> for an index \<open>0 \<le> i \<le> len(s)\<close>.\<close>

definition sliceTo :: "string \<Rightarrow> int \<Rightarrow> string" where
  "sliceTo s i = take (nat i) s"

definition sliceFrom :: "string \<Rightarrow> int \<Rightarrow> string" where
  "sliceFrom s i = drop (nat i) s"

text \<open>\<^verbatim>\<open>strings.Join(elems, sep)\<close>.\<close>

fun Join :: "string list \<Rightarrow> string \<Rightarrow> string" where
  "Join [] sep = []"
| "Join [x] sep = x"
| "Join (x # y # ys) sep = x @ sep @ Join (y # ys) sep"

text \<open>\<^verbatim>\<open>strconv.Itoa\<close> on a non-negative integer: its decimal digits.\<close>

definition digitChar :: "nat \<Rightarrow> char" where
  "digitChar d = ''0123456789'' ! d"

fun Itoa :: "nat \<Rightarrow> string" where
  "Itoa n = (if n < 10 then [digitChar n] else Itoa (n div 10) @ [digitChar (n mod 10)])"

declare Itoa.simps [simp del]

subsection \<open>ImageInfo and its canonical string\<close>

record ImageInfo =
  Registry :: string
  Name :: string
  Path :: string
  Tag :: string
  Digest :: string
  JSONPointer :: string

text \<open>
  \<^verbatim>\<open>func (i *ImageInfo) String() string\<close>: the tagged form is built first and replaced by
  the digest form when the digest is not empty.
\<close>

definition String :: "ImageInfo \<Rightarrow> string" where
  "String i =
     (let image = Registry i @ ''/'' @ Path i @ '':'' @ Tag i in
      if Digest i \<noteq> [] then Registry i @ ''/'' @ Path i @ ''@'' @ Digest i else image)"

subsection \<open>Domain defaulting\<close>

text \<open>
  The body of \<^verbatim>\<open>addDefaultDomain\<close>, with the lower-casing function as a parameter:
  what is proved for every \<open>lower\<close> holds for Go's \<^verbatim>\<open>strings.ToLower\<close> on every byte
  string, also outside ASCII.
\<close>

definition addDefaultDomainWith :: "(string \<Rightarrow> string) \<Rightarrow> string \<Rightarrow> string" where
  "addDefaultDomainWith lower name =
     (let i = IndexRune name (CHR ''/'') in
      if i = - 1 \<or>
         (\<not> ContainsAny (sliceTo name i) ''.:'' \<and> sliceTo name i \<noteq> ''localhost''
          \<and> lower (sliceTo name i) = sliceTo name i)
      then ''docker.io/'' @ name
      else name)"

definition addDefaultDomain :: "string \<Rightarrow> string" where
  "addDefaultDomain name = addDefaultDomainWith ToLower name"

subsection \<open>The reference grammar (external package)\<close>

text \<open>
  Modelled from the spec: \<^verbatim>\<open>reference.Parse\<close>, \<^verbatim>\<open>reference.Domain\<close> and
  \<^verbatim>\<open>reference.Path\<close> belong to the package github.com/distribution/distribution/reference,
  which imageutils.go imports; their code is not under src/. The spec (section 4.1) gives the
  grammar informally as \<^verbatim>\<open>[domain '/'] path ('@' digest | ':' tag)?\<close>, a path being one
  or more '/'-separated segments and a digest having the form algorithm:hex. Sections 3 and 9
  of the spec speak of references on which both a tag and a digest are supplied, so the model
  admits a tag followed by a digest: \<^verbatim>\<open>[domain '/'] path (':' tag)? ('@' digest)?\<close>. The
  lexical classes are those of the package's documented grammar:
  \<^verbatim>\<open>
  domain-component := [a-zA-Z0-9] | [a-zA-Z0-9][a-zA-Z0-9-]*[a-zA-Z0-9]
  domain           := domain-component ('.' domain-component)* (':' [0-9]+)?
  path-component   := [a-z0-9]+ (separator [a-z0-9]+)*
  separator        := [_.] | '__' | '-'*
  tag              := [A-Za-z0-9_][A-Za-z0-9_.-]{0,127}
  digest           := algorithm ':' hex        (hex: at least 32 hexadecimal digits)
  \<close>
  A parsed reference is a value behind the interfaces Named, Tagged and Digested; the model
  records which of them it implements, and with what.
\<close>

datatype Reference =
  Reference (named: "(string \<times> string) option") (tagged: "string option")
    (digested: "string option")

type_synonym parser = "string \<Rightarrow> string + Reference"

definition isDigit :: "char \<Rightarrow> bool" where
  "isDigit c = (c \<in> set ''0123456789'')"

definition isLower :: "char \<Rightarrow> bool" where
  "isLower c = (c \<in> set ''abcdefghijklmnopqrstuvwxyz'')"

definition isUpper :: "char \<Rightarrow> bool" where
  "isUpper c = (c \<in> set ''ABCDEFGHIJKLMNOPQRSTUVWXYZ'')"

definition isLowerAlnum :: "char \<Rightarrow> bool" where
  "isLowerAlnum c = (isLower c \<or> isDigit c)"

definition isAlpha :: "char \<Rightarrow> bool" where
  "isAlpha c = (isLower c \<or> isUpper c)"

definition isAlnum :: "char \<Rightarrow> bool" where
  "isAlnum c = (isAlpha c \<or> isDigit c)"

definition isWord :: "char \<Rightarrow> bool" where
  "isWord c = (isAlnum c \<or> c = CHR ''_'')"

definition isHex :: "char \<Rightarrow> bool" where
  "isHex c = (c \<in> set ''0123456789abcdefABCDEF'')"

definition isLowerHex :: "char \<Rightarrow> bool" where
  "isLowerHex c = (c \<in> set ''0123456789abcdef'')"

text \<open>\<^verbatim>\<open>strings.Split(s, sep)\<close> for a one-character separator.\<close>

fun splitOn :: "char \<Rightarrow> string \<Rightarrow> string list" where
  "splitOn c [] = [[]]"
| "splitOn c (x # xs) =
     (if x = c then [] # splitOn c xs
      else (case splitOn c xs of [] \<Rightarrow> [[x]] | y # ys \<Rightarrow> (x # y) # ys))"

text \<open>A separator between two alphanumeric runs of a path component.\<close>

definition isSeparator :: "string \<Rightarrow> bool" where
  "isSeparator sep =
     (sep = ''.'' \<or> sep = ''_'' \<or> sep = ''__'' \<or>
      (sep \<noteq> [] \<and> list_all (\<lambda>c. c = CHR ''-'') sep))"

text \<open>
  The rest of a path component; \<open>sep\<close> holds the separator characters read since the last
  alphanumeric one.
\<close>

fun nameComponentFrom :: "string \<Rightarrow> string \<Rightarrow> bool" where
  "nameComponentFrom sep [] = (sep = [])"
| "nameComponentFrom sep (c # cs) =
     (if isLowerAlnum c then (sep = [] \<or> isSeparator sep) \<and> nameComponentFrom [] cs
      else nameComponentFrom (sep @ [c]) cs)"

definition isNameComponent :: "string \<Rightarrow> bool" where
  "isNameComponent s = (s \<noteq> [] \<and> isLowerAlnum (hd s) \<and> nameComponentFrom [] s)"

definition isDomainComponent :: "string \<Rightarrow> bool" where
  "isDomainComponent s =
     (s \<noteq> [] \<and> isAlnum (hd s) \<and> isAlnum (last s) \<and>
      list_all (\<lambda>c. isAlnum c \<or> c = CHR ''-'') s)"

definition isDomain :: "string \<Rightarrow> bool" where
  "isDomain s =
     (let host = takeWhile (\<lambda>c. c \<noteq> CHR '':'') s;
          port = dropWhile (\<lambda>c. c \<noteq> CHR '':'') s
      in list_all isDomainComponent (splitOn (CHR ''.'') host) \<and>
         (port = [] \<or> (tl port \<noteq> [] \<and> list_all isDigit (tl port))))"

definition isTag :: "string \<Rightarrow> bool" where
  "isTag t =
     (t \<noteq> [] \<and> isWord (hd t) \<and>
      list_all (\<lambda>c. isWord c \<or> c = CHR ''.'' \<or> c = CHR ''-'') (tl t) \<and> length t \<le> 128)"

text \<open>
  Components separated by single separator characters: \<open>start\<close> says that a component has to
  begin at this point.
\<close>

fun componentsFrom ::
  "(char \<Rightarrow> bool) \<Rightarrow> (char \<Rightarrow> bool) \<Rightarrow> bool \<Rightarrow> string \<Rightarrow> bool" where
  "componentsFrom first inner start [] = (\<not> start)"
| "componentsFrom first inner start (c # cs) =
     (if start then first c \<and> componentsFrom first inner False cs
      else if inner c then componentsFrom first inner False cs
      else c \<in> set ''-_+.'' \<and> componentsFrom first inner True cs)"

text \<open>The digest of the reference grammar: \<^verbatim>\<open>alg([-_+.]alg)*:[[:xdigit:]]{32,}\<close>.\<close>

definition isDigestRegexp :: "string \<Rightarrow> bool" where
  "isDigestRegexp d =
     (let alg = takeWhile (\<lambda>c. c \<noteq> CHR '':'') d;
          enc = dropWhile (\<lambda>c. c \<noteq> CHR '':'') d
      in componentsFrom isAlpha isAlnum True alg \<and> enc \<noteq> [] \<and>
         32 \<le> length (tl enc) \<and> list_all isHex (tl enc))"

text \<open>
  The name of a reference, split into domain and path. The domain is the first segment when
  that segment is a domain and at least one path component follows; otherwise every segment
  is a path component and the domain is empty.
\<close>

definition anchoredNameRegexp :: "string \<Rightarrow> (string \<times> string) option" where
  "anchoredNameRegexp name =
     (let segs = splitOn (CHR ''/'') name in
      if 2 \<le> length segs \<and> isDomain (hd segs) \<and> list_all isNameComponent (tl segs)
      then Some (hd segs, Join (tl segs) ''/'')
      else if list_all isNameComponent segs then Some ([], name)
      else None)"

text \<open>
  The anchored reference expression with its three captures: name, tag and digest (a capture
  that takes no part in the match is the empty string). The digest follows the only '@'; the
  tag follows the last ':' when no '/' comes after it.
\<close>

definition ReferenceRegexp :: "string \<Rightarrow> (string \<times> string \<times> string) option" where
  "ReferenceRegexp s =
     (let pre = takeWhile (\<lambda>c. c \<noteq> CHR ''@'') s;
          at = dropWhile (\<lambda>c. c \<noteq> CHR ''@'') s;
          dg = (if at = [] then [] else tl at);
          rtag = takeWhile (\<lambda>c. c \<noteq> CHR '':'' \<and> c \<noteq> CHR ''/'') (rev pre);
          rname = dropWhile (\<lambda>c. c \<noteq> CHR '':'' \<and> c \<noteq> CHR ''/'') (rev pre);
          hasTag = (rname \<noteq> [] \<and> hd rname = CHR '':'');
          name = (if hasTag then rev (tl rname) else pre);
          tag = (if hasTag then rev rtag else [])
      in if anchoredNameRegexp name \<noteq> None \<and> (if hasTag then isTag tag else True) \<and>
            (if at = [] then True else isDigestRegexp dg)
         then Some (name, tag, dg)
         else None)"

text \<open>The error messages of the package and of the digest package it calls.\<close>

definition ErrReferenceInvalidFormat :: string where
  "ErrReferenceInvalidFormat = ''invalid reference format''"

definition ErrNameContainsUppercase :: string where
  "ErrNameContainsUppercase = ''repository name must be lowercase''"

definition ErrNameEmpty :: string where
  "ErrNameEmpty = ''repository name must have at least one component''"

definition ErrNameTooLong :: string where
  "ErrNameTooLong = ''repository name must not be more than 255 characters''"

definition ErrDigestInvalidFormat :: string where
  "ErrDigestInvalidFormat = ''invalid checksum digest format''"

definition ErrDigestInvalidLength :: string where
  "ErrDigestInvalidLength = ''invalid checksum digest length''"

definition ErrDigestUnsupported :: string where
  "ErrDigestUnsupported = ''unsupported digest algorithm''"

text \<open>
  \<^verbatim>\<open>digest.Parse\<close>: the registered algorithms are sha256, sha384 and sha512, with 64, 96
  and 128 lower-case hexadecimal digits.
\<close>

definition digestSizes :: "string \<Rightarrow> nat option" where
  "digestSizes = map_of [(''sha256'', 32), (''sha384'', 48), (''sha512'', 64)]"

definition digest_Parse :: "string \<Rightarrow> string + string" where
  "digest_Parse d =
     (let alg = takeWhile (\<lambda>c. c \<noteq> CHR '':'') d;
          enc = tl (dropWhile (\<lambda>c. c \<noteq> CHR '':'') d)
      in if alg = [] \<or> enc = [] then Inl ErrDigestInvalidFormat
         else (case digestSizes alg of
                 None \<Rightarrow>
                   (if componentsFrom isLowerAlnum isLowerAlnum True alg \<and>
                       list_all (\<lambda>c. isAlnum c \<or> c \<in> set ''=_-'') enc
                    then Inl ErrDigestUnsupported
                    else Inl ErrDigestInvalidFormat)
               | Some sz \<Rightarrow>
                   (if sz * 2 \<noteq> length enc then Inl ErrDigestInvalidLength
                    else if list_all isLowerHex enc then Inr d
                    else Inl ErrDigestInvalidFormat)))"

definition getBestReferenceType ::
  "string \<Rightarrow> string \<Rightarrow> string \<Rightarrow> string \<Rightarrow> Reference option" where
  "getBestReferenceType domain path tag digest =
     (if (if domain = [] then path else domain @ ''/'' @ path) = [] then
        (if digest \<noteq> [] then Some (Reference None None (Some digest)) else None)
      else if tag = [] then
        (if digest \<noteq> [] then Some (Reference (Some (domain, path)) None (Some digest))
         else Some (Reference (Some (domain, path)) None None))
      else if digest = [] then Some (Reference (Some (domain, path)) (Some tag) None)
      else Some (Reference (Some (domain, path)) (Some tag) (Some digest)))"

definition reference_Parse :: parser where
  "reference_Parse s =
     (case ReferenceRegexp s of
        None \<Rightarrow>
          (if s = [] then Inl ErrNameEmpty
           else if ReferenceRegexp (ToLower s) \<noteq> None then Inl ErrNameContainsUppercase
           else Inl ErrReferenceInvalidFormat)
      | Some (name, tag, dg) \<Rightarrow>
          (if 255 < length name then Inl ErrNameTooLong
           else
             let (domain, path) =
                   (case anchoredNameRegexp name of Some dp \<Rightarrow> dp | None \<Rightarrow> ([], name))
             in (case (if dg \<noteq> [] then digest_Parse dg else Inr []) of
                   Inl err \<Rightarrow> Inl err
                 | Inr digest \<Rightarrow>
                     (case getBestReferenceType domain path tag digest of
                        None \<Rightarrow> Inl ErrNameEmpty
                      | Some r \<Rightarrow> Inr r))))"

subsection \<open>Parsing one image string\<close>

text \<open>
  \<^verbatim>\<open>newImageInfo\<close>, with the reference parser as a parameter. An error is represented by
  its message; \<^verbatim>\<open>errors.Wrapf(err, "bad image: %s", image)\<close> puts its own text and ": "
  before the message of \<open>err\<close>.
\<close>

definition newImageInfo :: "parser \<Rightarrow> string \<Rightarrow> string \<Rightarrow> string + ImageInfo" where
  "newImageInfo parse image0 jsonPointer =
     (let image = addDefaultDomain image0 in
      case parse image of
        Inl err \<Rightarrow> Inl (''bad image: '' @ image @ '': '' @ err)
      | Inr ref \<Rightarrow>
          let registry = (case named ref of Some (d, p) \<Rightarrow> d | None \<Rightarrow> []);
              path = (case named ref of Some (d, p) \<Rightarrow> p | None \<Rightarrow> []);
              name = (case named ref of
                        Some (d, p) \<Rightarrow> sliceFrom p (LastIndex p (CHR ''/'') + 1)
                      | None \<Rightarrow> []);
              tag0 = (case tagged ref of Some t \<Rightarrow> t | None \<Rightarrow> []);
              digest = (case digested ref of Some d \<Rightarrow> d | None \<Rightarrow> []);
              tag = (if digest = [] \<and> tag0 = [] then ''latest'' else tag0)
          in Inr \<lparr>Registry = registry, Name = name, Path = path, Tag = tag,
                  Digest = digest, JSONPointer = jsonPointer\<rparr>)"

subsection \<open>Manifests\<close>

text \<open>
  The content of an \<^verbatim>\<open>unstructured.Unstructured\<close>: the values an \<^verbatim>\<open>interface{}\<close> holds
  after JSON decoding. A Go map \<^verbatim>\<open>map[string]interface{}\<close> is an association list read
  with \<^const>\<open>map_of\<close>.
\<close>

datatype json =
  JNull
| JBool bool
| JNumber int
| JString string
| JArray "json list"
| JObject "(string \<times> json) list"

type_synonym manifest = "(string \<times> json) list"

text \<open>
  \<^verbatim>\<open>unstructured.NestedSlice\<close> (k8s.io/apimachinery): follows the fields through nested
  maps; the result is found only when every field is present and the value reached is a slice.
  The error it also returns is discarded by its caller.
\<close>

fun NestedFieldNoCopy :: "json \<Rightarrow> string list \<Rightarrow> json option" where
  "NestedFieldNoCopy v [] = Some v"
| "NestedFieldNoCopy (JObject m) (f # fs) =
     (case map_of m f of Some v \<Rightarrow> NestedFieldNoCopy v fs | None \<Rightarrow> None)"
| "NestedFieldNoCopy v (f # fs) = None"

definition NestedSlice :: "manifest \<Rightarrow> string list \<Rightarrow> json list option" where
  "NestedSlice obj flds =
     (case NestedFieldNoCopy (JObject obj) flds of
        Some (JArray xs) \<Rightarrow> Some xs
      | _ \<Rightarrow> None)"

text \<open>\<^verbatim>\<open>resource.GetKind()\<close>: the string under "kind", the empty string otherwise.\<close>

definition GetKind :: "manifest \<Rightarrow> string" where
  "GetKind resource = (case map_of resource ''kind'' of Some (JString k) \<Rightarrow> k | _ \<Rightarrow> [])"

subsection \<open>Collecting the images of a container list\<close>

datatype ContainerImage = ContainerImage (imageInfo: ImageInfo) (containerName: string)

text \<open>
  A failed type assertion \<^verbatim>\<open>x.(string)\<close> panics; the panic is the left summand of every
  result below, with the name of the field that was asserted.
\<close>

datatype panic = InterfaceConversion string

text \<open>
  The loop of \<^verbatim>\<open>convertToImageInfo\<close>, with its three variables \<open>index\<close>, \<open>images\<close> and
  \<open>errs\<close>. A parse error ends the iteration with \<^verbatim>\<open>continue\<close>, before \<^verbatim>\<open>index++\<close>.
\<close>

fun convertLoop ::
  "parser \<Rightarrow> string \<Rightarrow> json list \<Rightarrow> nat \<Rightarrow> ContainerImage list \<Rightarrow> string list \<Rightarrow>
   panic + (ContainerImage list \<times> string list)" where
  "convertLoop parse jsonPath [] index images errs = Inr (images, errs)"
| "convertLoop parse jsonPath (ctr # rest) index images errs =
     (case ctr of
        JObject container \<Rightarrow>
          (case map_of container ''name'' of
             Some (JString name) \<Rightarrow>
               (case (case map_of container ''image'' of
                        None \<Rightarrow> Inr []
                      | Some (JString img) \<Rightarrow> Inr img
                      | Some _ \<Rightarrow> Inl (InterfaceConversion ''image'')) of
                  Inl p \<Rightarrow> Inl p
                | Inr img \<Rightarrow>
                    (let jp = Join [jsonPath, Itoa index, ''image''] ''/'' in
                     case newImageInfo parse img jp of
                       Inl err \<Rightarrow> convertLoop parse jsonPath rest index images (errs @ [err])
                     | Inr info \<Rightarrow>
                         convertLoop parse jsonPath rest (index + 1)
                           (images @ [ContainerImage info name]) errs))
           | _ \<Rightarrow> Inl (InterfaceConversion ''name''))
      | _ \<Rightarrow> convertLoop parse jsonPath rest (index + 1) images errs)"

text \<open>The aggregate error is \<open>None\<close> for Go's \<^verbatim>\<open>nil\<close>, otherwise its message.\<close>

definition convertToImageInfo ::
  "parser \<Rightarrow> json list \<Rightarrow> string \<Rightarrow> panic + (ContainerImage list \<times> string option)" where
  "convertToImageInfo parse containers jsonPath =
     (case convertLoop parse jsonPath containers 0 [] [] of
        Inl p \<Rightarrow> Inl p
      | Inr (images, errs) \<Rightarrow>
          if length errs = 0 then Inr (images, None)
          else Inr (images, Some (Join errs '';'')))"

text \<open>\<^verbatim>\<open>extractImageInfos\<close> logs the aggregate error and returns the images.\<close>

definition extractImageInfos ::
  "parser \<Rightarrow> json list \<Rightarrow> string \<Rightarrow> panic + ContainerImage list" where
  "extractImageInfos parse containers jsonPath =
     (case convertToImageInfo parse containers jsonPath of
        Inl p \<Rightarrow> Inl p
      | Inr (img, err) \<Rightarrow> Inr img)"

subsection \<open>Traversal by kind\<close>

definition extractors :: "(string \<times> string list) list" where
  "extractors =
     [(''Pod'', [''spec'']),
      (''CronJob'', [''spec'', ''jobTemplate'', ''spec'', ''template'', ''spec'']),
      (''Deployment'', [''spec'', ''template'', ''spec'']),
      (''DaemonSet'', [''spec'', ''template'', ''spec'']),
      (''Job'', [''spec'', ''template'', ''spec'']),
      (''StatefulSet'', [''spec'', ''template'', ''spec''])]"

text \<open>
  \<^verbatim>\<open>extractors[kind]\<close>: indexing a Go map with a key it does not hold gives the zero value,
  an extractor whose \<open>fields\<close> is the nil slice.
\<close>

definition extractorFor :: "string \<Rightarrow> string list" where
  "extractorFor kind = (case map_of extractors kind of Some flds \<Rightarrow> flds | None \<Rightarrow> [])"

text \<open>The method \<^verbatim>\<open>imageExtractor.extract\<close>; \<open>flds\<close> is the receiver's \<^verbatim>\<open>fields\<close>.\<close>

definition imageExtractor_extract ::
  "parser \<Rightarrow> string list \<Rightarrow> string \<Rightarrow> manifest \<Rightarrow> panic + ContainerImage list" where
  "imageExtractor_extract parse flds tag resource =
     (let f = flds @ [tag] in
      case NestedSlice resource f of
        Some containers \<Rightarrow> extractImageInfos parse containers (''/'' @ Join f ''/'')
      | None \<Rightarrow> Inr [])"

definition extractImageInfo ::
  "parser \<Rightarrow> manifest \<Rightarrow>
   panic + (ContainerImage list \<times> ContainerImage list \<times> ContainerImage list)" where
  "extractImageInfo parse resource =
     (let extractor = extractorFor (GetKind resource) in
      case imageExtractor_extract parse extractor ''initContainers'' resource of
        Inl p \<Rightarrow> Inl p
      | Inr initContainersImgs \<Rightarrow>
          (case imageExtractor_extract parse extractor ''containers'' resource of
             Inl p \<Rightarrow> Inl p
           | Inr containersImgs \<Rightarrow>
               (case imageExtractor_extract parse extractor ''ephemeralContainers'' resource of
                  Inl p \<Rightarrow> Inl p
                | Inr ephemeralContainersImgs \<Rightarrow>
                    Inr (initContainersImgs, containersImgs, ephemeralContainersImgs))))"

subsection \<open>The inventory and the patches\<close>

text \<open>
  The three maps of \<^verbatim>\<open>Images\<close> are association lists with one entry per key. The order of
  a list stands for the order in which a \<^verbatim>\<open>range\<close> statement visits the map, which Go leaves
  unspecified; what is proved about the patches holds for every such order.
\<close>

record Images =
  InitContainers :: "(string \<times> ImageInfo) list"
  Containers :: "(string \<times> ImageInfo) list"
  EphemeralContainers :: "(string \<times> ImageInfo) list"

text \<open>\<^verbatim>\<open>m[k] = v\<close> on such a map.\<close>

fun assign :: "(string \<times> ImageInfo) list \<Rightarrow> string \<Rightarrow> ImageInfo \<Rightarrow> (string \<times> ImageInfo) list" where
  "assign [] k v = [(k, v)]"
| "assign ((k', v') # m) k v = (if k' = k then (k, v) # m else (k', v') # assign m k v)"

definition newImages ::
  "ContainerImage list \<Rightarrow> ContainerImage list \<Rightarrow> ContainerImage list \<Rightarrow> Images" where
  "newImages initContainersImgs containersImgs ephemeralContainersImgs =
     \<lparr>InitContainers =
        foldl (\<lambda>m r. assign m (containerName r) (imageInfo r)) [] initContainersImgs,
      Containers =
        foldl (\<lambda>m r. assign m (containerName r) (imageInfo r)) [] containersImgs,
      EphemeralContainers =
        foldl (\<lambda>m r. assign m (containerName r) (imageInfo r)) [] ephemeralContainersImgs\<rparr>"

definition buildJSONPatch :: "string \<Rightarrow> string \<Rightarrow> string \<Rightarrow> string" where
  \<open>buildJSONPatch op path v =
     ''{ "op": "'' @ op @ ''", "path": "'' @ path @ ''", "value":"'' @ v @ ''" }''\<close>

text \<open>The three loops of \<^verbatim>\<open>MutateResourceWithImageInfo\<close> that append to \<open>patches\<close>.\<close>

fun appendPatches :: "string list \<Rightarrow> (string \<times> ImageInfo) list \<Rightarrow> string list" where
  "appendPatches patches [] = patches"
| "appendPatches patches ((k, info) # m) =
     appendPatches (patches @ [buildJSONPatch ''replace'' (JSONPointer info) (String info)]) m"

definition buildPatches :: "Images \<Rightarrow> string list" where
  "buildPatches images =
     appendPatches
       (appendPatches (appendPatches [] (Containers images)) (InitContainers images))
       (EphemeralContainers images)"

text \<open>
  \<^verbatim>\<open>MutateResourceWithImageInfo\<close>. The context is a value of an interface type declared
  outside src/, and \<^verbatim>\<open>engineutils.ApplyPatches\<close> and \<^verbatim>\<open>AddResource\<close> are not under src/
  either: the function that reads the inventory of the context (\<open>None\<close> for the nil pointer)
  and these two functions are parameters. \<^verbatim>\<open>AddResource\<close> changes the context, so the
  context is returned along with the error (\<open>None\<close> for \<^verbatim>\<open>nil\<close>).
\<close>

definition MutateResourceWithImageInfo ::
  "(string \<Rightarrow> string list \<Rightarrow> string + string) \<Rightarrow> ('ctx \<Rightarrow> string \<Rightarrow> 'ctx \<times> string option) \<Rightarrow>
   ('ctx \<Rightarrow> Images option) \<Rightarrow> string \<Rightarrow> 'ctx \<Rightarrow> 'ctx \<times> string option" where
  "MutateResourceWithImageInfo applyPatches addResource imageInfoOf raw ctx =
     (case imageInfoOf ctx of
        None \<Rightarrow> (ctx, None)
      | Some images \<Rightarrow>
          (case applyPatches raw (buildPatches images) of
             Inl err \<Rightarrow> (ctx, Some err)
           | Inr patchedResource \<Rightarrow> addResource ctx patchedResource))"

subsection \<open>The collaborators of the mutate step\<close>

text \<open>
  Modelled from the spec: the context behind the interface \<^verbatim>\<open>Interface\<close> (package context,
  not under src/). Of its content the mutate step touches the inventory, which
  \<^verbatim>\<open>ctx.ImageInfo()\<close> returns (nil when there is none), and the document under evaluation,
  which \<^verbatim>\<open>AddResource\<close> replaces.
\<close>

record Context =
  ctxImages :: "Images option"
  ctxResource :: string

text \<open>
  Modelled from the spec: \<^verbatim>\<open>engineutils.ApplyPatches\<close> (pkg/engine/utils, not under src/),
  the PatchApplier of section 4.6, \<^verbatim>\<open>apply(document, patches) -> bytes | Error\<close>. With an
  empty operation list patching is a no-op (section 4.5) and the input bytes come back
  unchanged with no error (section 8). Applying a non-empty list is the work of the JSON-patch
  engine, a parameter: it gives the mutated bytes or the error.
\<close>

definition ApplyPatches ::
  "(string \<Rightarrow> string list \<Rightarrow> string + string) \<Rightarrow> string \<Rightarrow> string list \<Rightarrow> string + string" where
  "ApplyPatches jsonpatch raw patches = (if patches = [] then Inr raw else jsonpatch raw patches)"

text \<open>
  Modelled from the spec: \<^verbatim>\<open>AddResource\<close> (package context, not under src/) puts the
  document into the context. The spec gives this step no failure: in its error taxonomy
  (section 7) the only error of the mutate call is the PatchError of patch application.
\<close>

definition AddResource :: "Context \<Rightarrow> string \<Rightarrow> Context \<times> string option" where
  "AddResource ctx dataRaw = (ctx\<lparr>ctxResource := dataRaw\<rparr>, None)"

subsection \<open>A container list, entry by entry\<close>

text \<open>
  What the loop reads from one element: the name and the image string of a mapping whose
  \<open>name\<close> is a string and whose \<open>image\<close> is a string or absent (the image string is then
  empty). Every other mapping makes a type assertion fail, and an element that is not a mapping
  is passed over.
\<close>

fun entryNameImage :: "json \<Rightarrow> (string \<times> string) option" where
  "entryNameImage (JObject container) =
     (case map_of container ''name'' of
        Some (JString name) \<Rightarrow>
          (case map_of container ''image'' of
             None \<Rightarrow> Some (name, [])
           | Some (JString img) \<Rightarrow> Some (name, img)
           | Some _ \<Rightarrow> None)
      | _ \<Rightarrow> None)"
| "entryNameImage _ = None"

fun isMapping :: "json \<Rightarrow> bool" where
  "isMapping (JObject container) = True"
| "isMapping _ = False"

definition wellFormedEntry :: "json \<Rightarrow> bool" where
  "wellFormedEntry ctr = (if isMapping ctr then entryNameImage ctr \<noteq> None else True)"

text \<open>A mapping whose \<open>name\<close> is absent or is not a string.\<close>

fun lacksName :: "json \<Rightarrow> bool" where
  "lacksName (JObject container) =
     (case map_of container ''name'' of Some (JString name) \<Rightarrow> False | _ \<Rightarrow> True)"
| "lacksName _ = False"

text \<open>
  The entries of a list that parse, with their container names, and the messages of those
  that do not, both in list order. Neither depends on the document location.
\<close>

fun parsedEntries :: "parser \<Rightarrow> json list \<Rightarrow> (string \<times> ImageInfo) list" where
  "parsedEntries parse [] = []"
| "parsedEntries parse (ctr # rest) =
     (case entryNameImage ctr of
        None \<Rightarrow> parsedEntries parse rest
      | Some (name, img) \<Rightarrow>
          (case newImageInfo parse img [] of
             Inl err \<Rightarrow> parsedEntries parse rest
           | Inr info \<Rightarrow> (name, info) # parsedEntries parse rest))"

fun parseErrors :: "parser \<Rightarrow> json list \<Rightarrow> string list" where
  "parseErrors parse [] = []"
| "parseErrors parse (ctr # rest) =
     (case entryNameImage ctr of
        None \<Rightarrow> parseErrors parse rest
      | Some (name, img) \<Rightarrow>
          (case newImageInfo parse img [] of
             Inl err \<Rightarrow> err # parseErrors parse rest
           | Inr info \<Rightarrow> parseErrors parse rest))"

definition withoutPointer :: "ContainerImage \<Rightarrow> string \<times> ImageInfo" where
  "withoutPointer c = (containerName c, (imageInfo c)\<lparr>JSONPointer := []\<rparr>)"

subsection \<open>A leading segment that is not taken for a domain\<close>

text \<open>The three tests of \<^const>\<open>addDefaultDomain\<close> on the segment before the first '/'.\<close>

definition unqualified :: "string \<Rightarrow> bool" where
  "unqualified seg =
     (CHR ''.'' \<notin> set seg \<and> CHR '':'' \<notin> set seg \<and> seg \<noteq> ''localhost'' \<and> ToLower seg = seg)"

subsection \<open>Assembling a reference string\<close>

text \<open>The tag and the digest of a reference string, each with its separator when present.\<close>

definition tagPart :: "string \<Rightarrow> string" where
  "tagPart t = (if t = [] then [] else '':'' @ t)"

definition digestPart :: "string \<Rightarrow> string" where
  "digestPart g = (if g = [] then [] else ''@'' @ g)"

section \<open>Properties\<close>

subsection \<open>String helpers\<close>

lemma IndexRune_lower: "- 1 \<le> IndexRune s c"
  by (induction s) (auto simp: Let_def)

lemma IndexRune_none: "IndexRune s c = - 1 \<longleftrightarrow> c \<notin> set s"
proof (induction s)
  case Nil
  show ?case by simp
next
  case (Cons x xs)
  have "IndexRune xs c + 1 \<noteq> - 1"
    using IndexRune_lower [of xs c] by arith
  with Cons show ?case by (auto simp: Let_def)
qed

lemma IndexRune_nonneg: "c \<in> set s \<Longrightarrow> 0 \<le> IndexRune s c"
  using IndexRune_lower [of s c] IndexRune_none [of s c] by arith

lemma sliceTo_IndexRune:
  "c \<in> set s \<Longrightarrow> sliceTo s (IndexRune s c) = takeWhile (\<lambda>x. x \<noteq> c) s"
proof (induction s)
  case Nil
  then show ?case by simp
next
  case (Cons x xs)
  show ?case
  proof (cases "x = c")
    case True
    then show ?thesis by (simp add: sliceTo_def)
  next
    case False
    with Cons.prems have mem: "c \<in> set xs" by simp
    then have nn: "0 \<le> IndexRune xs c" by (rule IndexRune_nonneg)
    then have ne: "IndexRune xs c \<noteq> - 1" by simp
    have "nat (IndexRune xs c + 1) = Suc (nat (IndexRune xs c))"
      using nn by simp
    with False ne Cons.IH [OF mem] show ?thesis
      by (simp add: sliceTo_def Let_def)
  qed
qed

lemma ContainsAny_dot_colon:
  "ContainsAny s ''.:'' \<longleftrightarrow> CHR ''.'' \<in> set s \<or> CHR '':'' \<in> set s"
  by (auto simp: ContainsAny_def list_ex_iff)

subsection \<open>Claims on rendering and on domain defaulting\<close>

text \<open>
  C6. Canonical rendering: the canonical string of an ImageInfo is
  registry + "/" + path + ":" + tag when the digest field is empty, and
  registry + "/" + path + "@" + digest when the digest field is not empty; in the second
  case the tag is not part of the rendered string, whatever the tag field holds.
\<close>

theorem String_canonical:
  "(Digest i = [] \<longrightarrow> String i = Registry i @ ''/'' @ Path i @ '':'' @ Tag i) \<and>
   (Digest i \<noteq> [] \<longrightarrow> String i = Registry i @ ''/'' @ Path i @ ''@'' @ Digest i) \<and>
   (Digest i \<noteq> [] \<longrightarrow> String (i\<lparr>Tag := t\<rparr>) = String i)"
  by (simp add: String_def)

theorem String_canonical_witness:
  "String \<lparr>Registry = ''docker.io'', Name = ''busybox'', Path = ''busybox'', Tag = ''v1'',
           Digest = ''sha256:ab'', JSONPointer = []\<rparr> = ''docker.io/busybox@sha256:ab'' \<and>
   String \<lparr>Registry = ''docker.io'', Name = ''busybox'', Path = ''busybox'', Tag = ''v1'',
           Digest = [], JSONPointer = []\<rparr> = ''docker.io/busybox:v1''"
  using String_canonical [of "\<lparr>Registry = ''docker.io'', Name = ''busybox'', Path = ''busybox'',
      Tag = ''v1'', Digest = ''sha256:ab'', JSONPointer = []\<rparr>" "[]"]
    String_canonical [of "\<lparr>Registry = ''docker.io'', Name = ''busybox'', Path = ''busybox'',
      Tag = ''v1'', Digest = [], JSONPointer = []\<rparr>" "[]"]
  by simp

text \<open>
  C5. Domain defaulting: for every input string \<open>s\<close>, addDefaultDomain returns
  "docker.io/" + s exactly when \<open>s\<close> contains no '/', or the segment before the first '/'
  contains neither '.' nor ':', is not "localhost" and is unchanged by lower-casing;
  in every other case it returns \<open>s\<close> unchanged. This holds whatever the lower-casing
  function is.
\<close>

theorem addDefaultDomain_spec:
  "(addDefaultDomainWith lower s = ''docker.io/'' @ s \<longleftrightarrow>
      (CHR ''/'' \<notin> set s \<or>
       (CHR ''.'' \<notin> set (takeWhile (\<lambda>c. c \<noteq> CHR ''/'') s) \<and>
        CHR '':'' \<notin> set (takeWhile (\<lambda>c. c \<noteq> CHR ''/'') s) \<and>
        takeWhile (\<lambda>c. c \<noteq> CHR ''/'') s \<noteq> ''localhost'' \<and>
        lower (takeWhile (\<lambda>c. c \<noteq> CHR ''/'') s) = takeWhile (\<lambda>c. c \<noteq> CHR ''/'') s))) \<and>
   (addDefaultDomainWith lower s \<noteq> ''docker.io/'' @ s \<longrightarrow> addDefaultDomainWith lower s = s) \<and>
   addDefaultDomain s = addDefaultDomainWith ToLower s"
proof (cases "CHR ''/'' \<in> set s")
  case False
  then have "IndexRune s (CHR ''/'') = - 1" by (simp add: IndexRune_none)
  with False show ?thesis by (simp add: addDefaultDomainWith_def addDefaultDomain_def)
next
  case True
  then have ne: "IndexRune s (CHR ''/'') \<noteq> - 1" by (simp add: IndexRune_none)
  have seg: "sliceTo s (IndexRune s (CHR ''/'')) = takeWhile (\<lambda>c. c \<noteq> CHR ''/'') s"
    using True by (rule sliceTo_IndexRune)
  have neq: "''docker.io/'' @ s \<noteq> s" by simp
  show ?thesis
    unfolding addDefaultDomain_def addDefaultDomainWith_def Let_def seg ContainsAny_dot_colon
    using True ne neq by auto
qed

theorem addDefaultDomain_spec_witness:
  "addDefaultDomain ''busybox'' = ''docker.io/busybox'' \<and>
   addDefaultDomain ''library/busybox'' = ''docker.io/library/busybox'' \<and>
   addDefaultDomain ''localhost/busybox'' = ''localhost/busybox'' \<and>
   addDefaultDomain ''Library/busybox'' = ''Library/busybox'' \<and>
   addDefaultDomain ''ghcr.io/busybox'' = ''ghcr.io/busybox''"
  using addDefaultDomain_spec [of ToLower "''busybox''"]
    addDefaultDomain_spec [of ToLower "''library/busybox''"]
    addDefaultDomain_spec [of ToLower "''localhost/busybox''"]
    addDefaultDomain_spec [of ToLower "''Library/busybox''"]
    addDefaultDomain_spec [of ToLower "''ghcr.io/busybox''"]
  by (simp add: ToLower_def toLowerChar_def)

subsection \<open>The loop over a container list\<close>

lemma newImageInfo_pointer_Inl:
  "newImageInfo parse img jp = Inl e \<Longrightarrow> newImageInfo parse img jp' = Inl e"
  by (auto simp: newImageInfo_def Let_def split: sum.splits)

lemma newImageInfo_pointer_Inr:
  "newImageInfo parse img jp = Inr i \<Longrightarrow>
   newImageInfo parse img jp' = Inr (i\<lparr>JSONPointer := jp'\<rparr>)"
  by (auto simp: newImageInfo_def Let_def split: sum.splits)

lemma convertLoop_wellFormed:
  "list_all wellFormedEntry cs \<Longrightarrow>
   \<exists>imgs. convertLoop parse jp cs idx images errs = Inr (images @ imgs, errs @ parseErrors parse cs)
      \<and> map withoutPointer imgs = parsedEntries parse cs"
proof (induction cs arbitrary: idx images errs)
  case Nil
  then show ?case by simp
next
  case (Cons ctr rest)
  from Cons.prems have wf: "wellFormedEntry ctr" and wfr: "list_all wellFormedEntry rest"
    by simp_all
  show ?case
  proof (cases "isMapping ctr")
    case False
    then have skip: "convertLoop parse jp (ctr # rest) idx images errs
        = convertLoop parse jp rest (idx + 1) images errs"
      by (cases ctr) simp_all
    from False have none: "entryNameImage ctr = None" by (cases ctr) simp_all
    from Cons.IH [OF wfr, of "idx + 1" images errs] skip none show ?thesis by simp
  next
    case True
    then obtain container where ctr: "ctr = JObject container" by (cases ctr) simp_all
    from wf True obtain name img where ent: "entryNameImage ctr = Some (name, img)"
      by (auto simp: wellFormedEntry_def)
    let ?jp = "Join [jp, Itoa idx, ''image''] ''/''"
    show ?thesis
    proof (cases "newImageInfo parse img ?jp")
      case (Inl err)
      then have e0: "newImageInfo parse img [] = Inl err" by (rule newImageInfo_pointer_Inl)
      have step: "convertLoop parse jp (ctr # rest) idx images errs
          = convertLoop parse jp rest idx images (errs @ [err])"
        using ent Inl unfolding ctr
        by (auto split: option.splits json.splits)
      from Cons.IH [OF wfr, of idx images "errs @ [err]"] step ent e0 show ?thesis by simp
    next
      case (Inr info)
      then have e0: "newImageInfo parse img [] = Inr (info\<lparr>JSONPointer := []\<rparr>)"
        by (rule newImageInfo_pointer_Inr)
      have step: "convertLoop parse jp (ctr # rest) idx images errs
          = convertLoop parse jp rest (idx + 1) (images @ [ContainerImage info name]) errs"
        using ent Inr unfolding ctr
        by (auto split: option.splits json.splits)
      from Cons.IH [OF wfr, of "idx + 1" "images @ [ContainerImage info name]" errs]
      obtain imgs where
        r: "convertLoop parse jp rest (idx + 1) (images @ [ContainerImage info name]) errs
            = Inr ((images @ [ContainerImage info name]) @ imgs, errs @ parseErrors parse rest)"
        and m: "map withoutPointer imgs = parsedEntries parse rest"
        by blast
      have "convertLoop parse jp (ctr # rest) idx images errs
            = Inr (images @ (ContainerImage info name # imgs), errs @ parseErrors parse (ctr # rest))"
        using step r ent e0 by simp
      moreover have "map withoutPointer (ContainerImage info name # imgs) = parsedEntries parse (ctr # rest)"
        using m ent e0 by (simp add: withoutPointer_def)
      ultimately show ?thesis by blast
    qed
  qed
qed

lemma convertLoop_lacksName:
  "list_ex lacksName cs \<Longrightarrow> isl (convertLoop parse jp cs idx images errs)"
proof (induction cs arbitrary: idx images errs)
  case Nil
  then show ?case by simp
next
  case (Cons ctr rest)
  show ?case
  proof (cases "lacksName ctr")
    case True
    then obtain container where ctr: "ctr = JObject container" by (cases ctr) simp_all
    with True show ?thesis by (auto split: option.splits json.splits)
  next
    case False
    with Cons.prems have "list_ex lacksName rest" by simp
    note IH = Cons.IH [OF this]
    show ?thesis
      using IH by (cases ctr) (auto simp: Let_def split: option.splits json.splits sum.splits)
  qed
qed

subsection \<open>Claims on the container list\<close>

lemma convertLoop_illFormed:
  "\<not> list_all wellFormedEntry cs \<Longrightarrow> isl (convertLoop parse jp cs idx images errs)"
proof (induction cs arbitrary: idx images errs)
  case Nil
  then show ?case by simp
next
  case (Cons ctr rest)
  show ?case
  proof (cases "wellFormedEntry ctr")
    case False
    then have m: "isMapping ctr" and n: "entryNameImage ctr = None"
      by (auto simp: wellFormedEntry_def split: if_splits)
    from m obtain container where ctr: "ctr = JObject container"
      by (cases ctr) simp_all
    from n show ?thesis unfolding ctr
      by (auto split: option.splits json.splits)
  next
    case True
    with Cons.prems have "\<not> list_all wellFormedEntry rest" by simp
    note IH = Cons.IH [OF this]
    show ?thesis
      using IH by (cases ctr) (auto simp: Let_def split: option.splits json.splits sum.splits)
  qed
qed

text \<open>
  C1 (as amended). Extraction is best-effort on every container list in which each mapping
  has a string name and a string or absent image, and these are exactly the lists on which
  the call returns (on the others a type assertion panics). On such a list the images returned
  are exactly the entries that parse, in list order, and the aggregate error is nil when no
  entry failed to parse and otherwise the messages of all failed entries joined with ";".
  After an entry that fails to parse the loop goes on with the remaining entries, with the
  images collected so far and the entry's message added to the errors.
\<close>

theorem convertToImageInfo_best_effort:
  "(entryNameImage ctr = Some (name, img) \<and>
    newImageInfo parse img (Join [jsonPath, Itoa idx, ''image''] ''/'') = Inl err \<longrightarrow>
      convertLoop parse jsonPath (ctr # rest) idx images errs
        = convertLoop parse jsonPath rest idx images (errs @ [err])) \<and>
   (list_all wellFormedEntry cs \<longrightarrow>
      (\<exists>imgs. convertToImageInfo parse cs jsonPath
                = Inr (imgs, if parseErrors parse cs = [] then None
                             else Some (Join (parseErrors parse cs) '';'')) \<and>
              map withoutPointer imgs = parsedEntries parse cs)) \<and>
   ((\<exists>r. convertToImageInfo parse cs jsonPath = Inr r) \<longleftrightarrow> list_all wellFormedEntry cs)"
proof -
  have step: "convertLoop parse jsonPath (ctr # rest) idx images errs
        = convertLoop parse jsonPath rest idx images (errs @ [err])"
    if a: "entryNameImage ctr = Some (name, img) \<and>
      newImageInfo parse img (Join [jsonPath, Itoa idx, ''image''] ''/'') = Inl err"
  proof -
    from a obtain container where ctr: "ctr = JObject container"
      by (cases ctr) simp_all
    from a show ?thesis
      unfolding ctr by (auto split: option.splits json.splits)
  qed
  have result: "\<exists>imgs. convertToImageInfo parse cs jsonPath
                = Inr (imgs, if parseErrors parse cs = [] then None
                             else Some (Join (parseErrors parse cs) '';'')) \<and>
              map withoutPointer imgs = parsedEntries parse cs"
    if wf: "list_all wellFormedEntry cs"
  proof -
    from convertLoop_wellFormed [OF wf, of parse jsonPath 0 "[]" "[]"]
    obtain imgs where
      r: "convertLoop parse jsonPath cs 0 [] [] = Inr (imgs, parseErrors parse cs)"
      and m: "map withoutPointer imgs = parsedEntries parse cs"
      by auto
    from r have "convertToImageInfo parse cs jsonPath
                  = Inr (imgs, if parseErrors parse cs = [] then None
                               else Some (Join (parseErrors parse cs) '';''))"
      by (simp add: convertToImageInfo_def)
    with m show ?thesis by blast
  qed
  have returns: "(\<exists>r. convertToImageInfo parse cs jsonPath = Inr r) \<longleftrightarrow> list_all wellFormedEntry cs"
  proof
    assume "\<exists>r. convertToImageInfo parse cs jsonPath = Inr r"
    then obtain r where r: "convertToImageInfo parse cs jsonPath = Inr r" by blast
    show "list_all wellFormedEntry cs"
    proof (rule ccontr)
      assume "\<not> list_all wellFormedEntry cs"
      then have "isl (convertLoop parse jsonPath cs 0 [] [])" by (rule convertLoop_illFormed)
      then obtain p where "convertLoop parse jsonPath cs 0 [] [] = Inl p"
        by (auto simp: isl_def)
      then have "convertToImageInfo parse cs jsonPath = Inl p"
        by (simp add: convertToImageInfo_def)
      with r show False by simp
    qed
  next
    assume "list_all wellFormedEntry cs"
    from result [OF this] show "\<exists>r. convertToImageInfo parse cs jsonPath = Inr r" by blast
  qed
  from step result returns show ?thesis by blast
qed

text \<open>
  The claim as stated, for every container list, fails where a type assertion fails: with a
  third entry that has no name, or a second entry whose image is a number, the call panics,
  and the entry \<open>a\<close>, which parses, is not returned.
\<close>

theorem convertToImageInfo_best_effort_counterexample:
  "convertToImageInfo reference_Parse
     [JObject [(''name'', JString ''a''), (''image'', JString ''busybox'')],
      JObject [(''name'', JString ''b''), (''image'', JString ''!!'')],
      JObject [(''image'', JString ''nginx'')]] ''/spec/containers''
     = Inl (InterfaceConversion ''name'') \<and>
   parsedEntries reference_Parse
     [JObject [(''name'', JString ''a''), (''image'', JString ''busybox'')],
      JObject [(''name'', JString ''b''), (''image'', JString ''!!'')],
      JObject [(''image'', JString ''nginx'')]]
     = [(''a'', \<lparr>Registry = ''docker.io'', Name = ''busybox'', Path = ''busybox'',
                Tag = ''latest'', Digest = [], JSONPointer = []\<rparr>)] \<and>
   convertToImageInfo reference_Parse
     [JObject [(''name'', JString ''a''), (''image'', JString ''busybox'')],
      JObject [(''name'', JString ''b''), (''image'', JNumber 7)]] ''/spec/containers''
     = Inl (InterfaceConversion ''image'') \<and>
   parsedEntries reference_Parse
     [JObject [(''name'', JString ''a''), (''image'', JString ''busybox'')],
      JObject [(''name'', JString ''b''), (''image'', JNumber 7)]]
     = [(''a'', \<lparr>Registry = ''docker.io'', Name = ''busybox'', Path = ''busybox'',
                Tag = ''latest'', Digest = [], JSONPointer = []\<rparr>)]"
  by code_simp

lemma two_entries_errors:
  "parseErrors reference_Parse
     [JObject [(''name'', JString ''a''), (''image'', JString ''!!'')],
      JObject [(''name'', JString ''b''), (''image'', JString ''busybox'')]]
   = [''bad image: docker.io/!!: invalid reference format'']"
  by code_simp

lemma two_entries_parsed:
  "parsedEntries reference_Parse
     [JObject [(''name'', JString ''a''), (''image'', JString ''!!'')],
      JObject [(''name'', JString ''b''), (''image'', JString ''busybox'')]]
   = [(''b'', \<lparr>Registry = ''docker.io'', Name = ''busybox'', Path = ''busybox'',
              Tag = ''latest'', Digest = [], JSONPointer = []\<rparr>)]"
  by code_simp

lemma two_entries_wellFormed:
  "list_all wellFormedEntry
     [JObject [(''name'', JString ''a''), (''image'', JString ''!!'')],
      JObject [(''name'', JString ''b''), (''image'', JString ''busybox'')]]"
  by code_simp

theorem convertToImageInfo_best_effort_witness:
  "\<exists>imgs. convertToImageInfo reference_Parse
       [JObject [(''name'', JString ''a''), (''image'', JString ''!!'')],
        JObject [(''name'', JString ''b''), (''image'', JString ''busybox'')]]
       ''/spec/containers''
     = Inr (imgs, Some ''bad image: docker.io/!!: invalid reference format'') \<and>
     map withoutPointer imgs
       = [(''b'', \<lparr>Registry = ''docker.io'', Name = ''busybox'', Path = ''busybox'',
                  Tag = ''latest'', Digest = [], JSONPointer = []\<rparr>)]"
proof -
  let ?cs = "[JObject [(''name'', JString ''a''), (''image'', JString ''!!'')],
              JObject [(''name'', JString ''b''), (''image'', JString ''busybox'')]]"
  have "list_all wellFormedEntry ?cs \<longrightarrow>
      (\<exists>imgs. convertToImageInfo reference_Parse ?cs ''/spec/containers''
                = Inr (imgs, if parseErrors reference_Parse ?cs = [] then None
                             else Some (Join (parseErrors reference_Parse ?cs) '';'')) \<and>
              map withoutPointer imgs = parsedEntries reference_Parse ?cs)"
    using convertToImageInfo_best_effort
      [where parse = reference_Parse and cs = ?cs and jsonPath = "''/spec/containers''"]
    by blast
  with two_entries_wellFormed show ?thesis
    unfolding two_entries_errors two_entries_parsed by simp
qed

text \<open>
  C8. A missing container name is fatal: when a container list holds a mapping whose "name"
  is absent or is not a string, convertToImageInfo does not return images and an aggregate
  error; the failed type assertion panics, and the panic passes through extractImageInfos and
  through the extraction of that list from a manifest.
\<close>

theorem convertToImageInfo_lacksName_panics:
  "list_ex lacksName cs \<Longrightarrow>
   (\<exists>p. convertToImageInfo parse cs jsonPath = Inl p) \<and>
   (\<exists>p. extractImageInfos parse cs jsonPath = Inl p) \<and>
   (NestedSlice resource (flds @ [tag]) = Some cs \<longrightarrow>
      (\<exists>p. imageExtractor_extract parse flds tag resource = Inl p))"
proof -
  assume "list_ex lacksName cs"
  then have "isl (convertLoop parse jp cs 0 [] [])" for jp by (rule convertLoop_lacksName)
  then have loop: "\<exists>p. convertLoop parse jp cs 0 [] [] = Inl p" for jp
    by (simp add: isl_def)
  have both: "\<exists>p. convertToImageInfo parse cs jp = Inl p \<and> extractImageInfos parse cs jp = Inl p"
    for jp
  proof -
    from loop [of jp] obtain p where "convertLoop parse jp cs 0 [] [] = Inl p" by blast
    then have c: "convertToImageInfo parse cs jp = Inl p" by (simp add: convertToImageInfo_def)
    then have "extractImageInfos parse cs jp = Inl p" by (simp add: extractImageInfos_def)
    with c show ?thesis by blast
  qed
  from both [of jsonPath] both [of "''/'' @ Join (flds @ [tag]) ''/''"]
  show ?thesis by (auto simp: imageExtractor_extract_def Let_def)
qed

lemma lacksName_example:
  "list_ex lacksName
     [JObject [(''name'', JString ''a''), (''image'', JString ''busybox'')],
      JObject [(''image'', JString ''busybox'')]]"
  by code_simp

theorem convertToImageInfo_lacksName_panics_witness:
  "convertToImageInfo reference_Parse
     [JObject [(''name'', JString ''a''), (''image'', JString ''busybox'')],
      JObject [(''image'', JString ''busybox'')]] ''/spec/containers''
   = Inl (InterfaceConversion ''name'')"
proof -
  from convertToImageInfo_lacksName_panics [OF lacksName_example, of reference_Parse "''/spec/containers''"]
  obtain p where "convertToImageInfo reference_Parse
     [JObject [(''name'', JString ''a''), (''image'', JString ''busybox'')],
      JObject [(''image'', JString ''busybox'')]] ''/spec/containers'' = Inl p"
    by blast
  then show ?thesis by (cases p) (simp add: convertToImageInfo_def split: sum.splits)
qed

subsection \<open>Splitting and joining\<close>

lemma splitOn_nonempty: "splitOn c s \<noteq> []"
  by (induction s) (auto split: list.splits)

lemma Join_Cons: "segs \<noteq> [] \<Longrightarrow> Join (x # segs) sep = x @ sep @ Join segs sep"
  by (cases segs) simp_all

lemma Join_splitOn: "Join (splitOn c s) [c] = s"
proof (induction s)
  case Nil
  show ?case by simp
next
  case (Cons x xs)
  show ?case
  proof (cases "x = c")
    case True
    with Cons show ?thesis by (simp add: Join_Cons splitOn_nonempty)
  next
    case False
    obtain y ys where sp: "splitOn c xs = y # ys"
      using splitOn_nonempty [of c xs] by (cases "splitOn c xs") simp_all
    with Cons have "Join (y # ys) [c] = xs" by simp
    then have "Join ((x # y) # ys) [c] = x # xs" by (cases ys) simp_all
    with False sp show ?thesis by simp
  qed
qed

lemma splitOn_no_sep: "seg \<in> set (splitOn c s) \<Longrightarrow> c \<notin> set seg"
proof (induction s arbitrary: seg)
  case Nil
  then show ?case by simp
next
  case (Cons x xs)
  obtain y ys where sp: "splitOn c xs = y # ys"
    using splitOn_nonempty [of c xs] by (cases "splitOn c xs") simp_all
  from Cons.IH [of y] sp have y: "c \<notin> set y" by simp
  from Cons.IH sp have ys: "\<And>z. z \<in> set ys \<Longrightarrow> c \<notin> set z" by simp
  from Cons.prems sp y ys Cons.IH show ?case
    by (cases "x = c") auto
qed

lemma splitOn_chars:
  "x \<in> set s \<Longrightarrow> x \<noteq> c \<Longrightarrow> \<exists>seg \<in> set (splitOn c s). x \<in> set seg"
proof (induction s)
  case Nil
  then show ?case by simp
next
  case (Cons a s)
  obtain y ys where sp: "splitOn c s = y # ys"
    using splitOn_nonempty [of c s] by (cases "splitOn c s") simp_all
  show ?case
  proof (cases "x = a")
    case True
    with Cons.prems sp show ?thesis by simp
  next
    case False
    with Cons.prems have "x \<in> set s" by simp
    from Cons.IH [OF this Cons.prems(2)] sp show ?thesis
      by (cases "a = c") auto
  qed
qed

lemma hd_splitOn: "hd (splitOn c s) = takeWhile (\<lambda>x. x \<noteq> c) s"
proof (induction s)
  case Nil
  show ?case by simp
next
  case (Cons a s)
  obtain y ys where sp: "splitOn c s = y # ys"
    using splitOn_nonempty [of c s] by (cases "splitOn c s") simp_all
  with Cons show ?case by simp
qed

lemma splitOn_no_occurrence: "c \<notin> set a \<Longrightarrow> splitOn c a = [a]"
  by (induction a) auto

lemma last_splitOn: "last (splitOn c s) = rev (takeWhile (\<lambda>x. x \<noteq> c) (rev s))"
proof (induction s)
  case Nil
  show ?case by simp
next
  case (Cons a s)
  obtain y ys where sp: "splitOn c s = y # ys"
    using splitOn_nonempty [of c s] by (cases "splitOn c s") simp_all
  show ?case
  proof (cases "c \<in> set s")
    case True
    then have tw: "takeWhile (\<lambda>x. x \<noteq> c) (rev s @ [a]) = takeWhile (\<lambda>x. x \<noteq> c) (rev s)"
      by (simp add: takeWhile_append1)
    have "ys \<noteq> []"
    proof
      assume "ys = []"
      with sp have "Join (splitOn c s) [c] = y" by simp
      then have "s = y" by (simp add: Join_splitOn)
      moreover have "c \<notin> set y" using splitOn_no_sep [of y c s] sp by simp
      ultimately show False using True by simp
    qed
    with sp Cons tw show ?thesis by (cases "a = c") auto
  next
    case False
    then have s1: "splitOn c s = [s]" by (rule splitOn_no_occurrence)
    have tw: "takeWhile (\<lambda>x. x \<noteq> c) (rev s @ [a]) = rev s @ takeWhile (\<lambda>x. x \<noteq> c) [a]"
      using False by (intro takeWhile_append2) auto
    show ?thesis
    proof (cases "a = c")
      case True
      with s1 have "last (splitOn c (a # s)) = s" by simp
      moreover from True tw have "rev (takeWhile (\<lambda>x. x \<noteq> c) (rev (a # s))) = s" by simp
      ultimately show ?thesis by (simp only:)
    next
      case False
      with s1 have "last (splitOn c (a # s)) = a # s" by simp
      moreover from False tw have "rev (takeWhile (\<lambda>x. x \<noteq> c) (rev (a # s))) = a # s" by simp
      ultimately show ?thesis by (simp only:)
    qed
  qed
qed

subsection \<open>The characters of the grammar\<close>

lemma isAlnum_plain: "isAlnum c \<Longrightarrow> c \<noteq> CHR ''@'' \<and> c \<noteq> CHR '':'' \<and> c \<noteq> CHR ''/''"
  by (auto simp: isAlnum_def isAlpha_def isLower_def isUpper_def isDigit_def)

lemma isLowerAlnum_isAlnum: "isLowerAlnum c \<Longrightarrow> isAlnum c"
  by (auto simp: isLowerAlnum_def isAlnum_def isAlpha_def)

lemma isDigit_isAlnum: "isDigit c \<Longrightarrow> isAlnum c"
  by (simp add: isAlnum_def)

lemma isWord_plain: "isWord c \<Longrightarrow> c \<noteq> CHR ''@'' \<and> c \<noteq> CHR '':'' \<and> c \<noteq> CHR ''/''"
  using isAlnum_plain [of c] by (auto simp: isWord_def)

lemma isSeparator_plain:
  "isSeparator sep \<Longrightarrow> x \<in> set sep \<Longrightarrow> x \<noteq> CHR ''@'' \<and> x \<noteq> CHR '':'' \<and> x \<noteq> CHR ''/''"
  by (auto simp: isSeparator_def list_all_iff)

lemma nameComponentFrom_plain:
  "nameComponentFrom sep s \<Longrightarrow> x \<in> set sep \<union> set s \<Longrightarrow>
   x \<noteq> CHR ''@'' \<and> x \<noteq> CHR '':'' \<and> x \<noteq> CHR ''/''"
proof (induction s arbitrary: sep)
  case Nil
  then show ?case by simp
next
  case (Cons c cs)
  show ?case
  proof (cases "isLowerAlnum c")
    case True
    with Cons.prems(1) have sep: "sep = [] \<or> isSeparator sep" and r: "nameComponentFrom [] cs"
      by simp_all
    from Cons.prems(2) consider "x \<in> set sep" | "x = c" | "x \<in> set cs" by auto
    then show ?thesis
    proof cases
      case 1
      with sep show ?thesis using isSeparator_plain [of sep x] by auto
    next
      case 2
      with True show ?thesis using isAlnum_plain [of c] isLowerAlnum_isAlnum [of c] by simp
    next
      case 3
      with Cons.IH [OF r] show ?thesis by simp
    qed
  next
    case False
    with Cons.prems(1) have r: "nameComponentFrom (sep @ [c]) cs" by simp
    from Cons.prems(2) have "x \<in> set (sep @ [c]) \<union> set cs" by auto
    with Cons.IH [OF r] show ?thesis by blast
  qed
qed

lemma isNameComponent_plain:
  "isNameComponent s \<Longrightarrow> x \<in> set s \<Longrightarrow> x \<noteq> CHR ''@'' \<and> x \<noteq> CHR '':'' \<and> x \<noteq> CHR ''/''"
  using nameComponentFrom_plain [of "[]" s x] by (simp add: isNameComponent_def)

lemma isDomainComponent_plain:
  "isDomainComponent s \<Longrightarrow> x \<in> set s \<Longrightarrow> x \<noteq> CHR ''@'' \<and> x \<noteq> CHR ''/''"
  using isAlnum_plain [of x] by (auto simp: isDomainComponent_def list_all_iff)

lemma isDomain_plain:
  assumes "isDomain s" and "x \<in> set s"
  shows "x \<noteq> CHR ''@'' \<and> x \<noteq> CHR ''/''"
proof -
  let ?host = "takeWhile (\<lambda>c. c \<noteq> CHR '':'') s"
  let ?port = "dropWhile (\<lambda>c. c \<noteq> CHR '':'') s"
  from assms(1) have comps: "list_all isDomainComponent (splitOn (CHR ''.'') ?host)"
    and port: "?port = [] \<or> (tl ?port \<noteq> [] \<and> list_all isDigit (tl ?port))"
    by (simp_all add: isDomain_def Let_def)
  have "s = ?host @ ?port" by simp
  with assms(2) have "x \<in> set ?host \<or> x \<in> set ?port"
    by (metis Un_iff set_append)
  then show ?thesis
  proof
    assume h: "x \<in> set ?host"
    show ?thesis
    proof (cases "x = CHR ''.''")
      case True
      then show ?thesis by simp
    next
      case False
      from splitOn_chars [OF h False] obtain seg
        where "seg \<in> set (splitOn (CHR ''.'') ?host)" and "x \<in> set seg" by blast
      with comps show ?thesis
        using isDomainComponent_plain [of seg x] by (simp add: list_all_iff)
    qed
  next
    assume p: "x \<in> set ?port"
    then have ne: "?port \<noteq> []" by (cases ?port) simp_all
    then have hdp: "hd ?port = CHR '':''" using hd_dropWhile [of "\<lambda>c. c \<noteq> CHR '':''" s] by simp
    from ne have "?port = hd ?port # tl ?port" by simp
    with p have "x = hd ?port \<or> x \<in> set (tl ?port)" by (metis set_ConsD)
    then show ?thesis
    proof
      assume "x = hd ?port"
      with hdp show ?thesis by simp
    next
      assume "x \<in> set (tl ?port)"
      with port ne have "isDigit x" by (auto simp: list_all_iff)
      then show ?thesis using isAlnum_plain [of x] isDigit_isAlnum [of x] by simp
    qed
  qed
qed

lemma isTag_plain:
  assumes "isTag t" and "x \<in> set t"
  shows "x \<noteq> CHR ''@'' \<and> x \<noteq> CHR '':'' \<and> x \<noteq> CHR ''/''"
proof -
  from assms(1) have ne: "t \<noteq> []" and h: "isWord (hd t)"
    and r: "list_all (\<lambda>c. isWord c \<or> c = CHR ''.'' \<or> c = CHR ''-'') (tl t)"
    by (simp_all add: isTag_def)
  from ne have "t = hd t # tl t" by simp
  with assms(2) have "x = hd t \<or> x \<in> set (tl t)" by (metis set_ConsD)
  then show ?thesis
  proof
    assume "x = hd t"
    with h show ?thesis using isWord_plain [of x] by simp
  next
    assume "x \<in> set (tl t)"
    with r have "isWord x \<or> x = CHR ''.'' \<or> x = CHR ''-''" by (simp add: list_all_iff)
    then show ?thesis using isWord_plain [of x] by auto
  qed
qed

lemma isTag_latest: "isTag ''latest''"
  by code_simp

subsection \<open>The structure of a matched reference\<close>

lemma anchoredNameRegexp_cases:
  assumes "anchoredNameRegexp n = Some (d, p)"
  shows "(2 \<le> length (splitOn (CHR ''/'') n) \<and> isDomain (hd (splitOn (CHR ''/'') n)) \<and>
          list_all isNameComponent (tl (splitOn (CHR ''/'') n)) \<and>
          d = hd (splitOn (CHR ''/'') n) \<and> p = Join (tl (splitOn (CHR ''/'') n)) ''/'') \<or>
         (list_all isNameComponent (splitOn (CHR ''/'') n) \<and> d = [] \<and> p = n)"
  using assms by (auto simp: anchoredNameRegexp_def Let_def split: if_splits)

lemma anchoredNameRegexp_no_at:
  assumes "anchoredNameRegexp n = Some (d, p)"
  shows "CHR ''@'' \<notin> set n"
proof
  assume mem: "CHR ''@'' \<in> set n"
  let ?segs = "splitOn (CHR ''/'') n"
  from splitOn_chars [OF mem] obtain seg where seg: "seg \<in> set ?segs"
    and x: "CHR ''@'' \<in> set seg" by auto
  have ne: "?segs \<noteq> []" by (rule splitOn_nonempty)
  then have "?segs = hd ?segs # tl ?segs" by simp
  with seg have where_: "seg = hd ?segs \<or> seg \<in> set (tl ?segs)" by (metis set_ConsD)
  from anchoredNameRegexp_cases [OF assms] show False
  proof
    assume a: "2 \<le> length ?segs \<and> isDomain (hd ?segs) \<and>
          list_all isNameComponent (tl ?segs) \<and>
          d = hd ?segs \<and> p = Join (tl ?segs) ''/''"
    from where_ show False
    proof
      assume "seg = hd ?segs"
      with a x show False using isDomain_plain [of seg "CHR ''@''"] by simp
    next
      assume "seg \<in> set (tl ?segs)"
      with a x show False using isNameComponent_plain [of seg "CHR ''@''"]
        by (simp add: list_all_iff)
    qed
  next
    assume "list_all isNameComponent ?segs \<and> d = [] \<and> p = n"
    with seg x show False using isNameComponent_plain [of seg "CHR ''@''"]
      by (simp add: list_all_iff)
  qed
qed

lemma anchoredNameRegexp_last_segment:
  assumes "anchoredNameRegexp n = Some (d, p)"
  shows "CHR '':'' \<notin> set (takeWhile (\<lambda>c. c \<noteq> CHR ''/'') (rev n))"
proof -
  let ?segs = "splitOn (CHR ''/'') n"
  have ne: "?segs \<noteq> []" by (rule splitOn_nonempty)
  have "isNameComponent (last ?segs)"
    using anchoredNameRegexp_cases [OF assms]
  proof
    assume a: "2 \<le> length ?segs \<and> isDomain (hd ?segs) \<and>
          list_all isNameComponent (tl ?segs) \<and>
          d = hd ?segs \<and> p = Join (tl ?segs) ''/''"
    then have tne: "tl ?segs \<noteq> []" by (cases ?segs) auto
    then have "last ?segs = last (tl ?segs)" using ne by (metis last_tl list.sel(2))
    moreover have "last (tl ?segs) \<in> set (tl ?segs)" using tne by simp
    ultimately show ?thesis using a by (simp add: list_all_iff)
  next
    assume "list_all isNameComponent ?segs \<and> d = [] \<and> p = n"
    moreover have "last ?segs \<in> set ?segs" using ne by simp
    ultimately show ?thesis by (simp add: list_all_iff)
  qed
  then have "CHR '':'' \<notin> set (last ?segs)"
    using isNameComponent_plain [of "last ?segs" "CHR '':''"] by blast
  then show ?thesis by (simp add: last_splitOn)
qed

lemma anchoredNameRegexp_domain:
  assumes "anchoredNameRegexp n = Some (d, p)" and "d \<noteq> []"
  shows "n = d @ ''/'' @ p \<and> CHR ''/'' \<notin> set d"
proof -
  let ?segs = "splitOn (CHR ''/'') n"
  from anchoredNameRegexp_cases [OF assms(1)] assms(2)
  have a: "2 \<le> length ?segs" and d: "d = hd ?segs" and p: "p = Join (tl ?segs) ''/''"
    by auto
  have ne: "?segs \<noteq> []" by (rule splitOn_nonempty)
  then have segs: "?segs = d # tl ?segs" using d by simp
  from a have tne: "tl ?segs \<noteq> []" by (cases ?segs) auto
  have "n = Join ?segs ''/''" by (simp add: Join_splitOn)
  also have "\<dots> = Join (d # tl ?segs) ''/''" using segs by simp
  also have "\<dots> = d @ ''/'' @ p" using tne p by (simp add: Join_Cons)
  finally have "n = d @ ''/'' @ p" .
  moreover have "d \<in> set ?segs" using segs by (metis list.set_intros(1))
  then have "CHR ''/'' \<notin> set d" by (rule splitOn_no_sep)
  ultimately show ?thesis by simp
qed

lemma takeWhile_tag_boundary:
  "CHR '':'' \<notin> set (takeWhile (\<lambda>c. c \<noteq> CHR ''/'') xs) \<Longrightarrow>
   takeWhile (\<lambda>c. c \<noteq> CHR '':'' \<and> c \<noteq> CHR ''/'') xs = takeWhile (\<lambda>c. c \<noteq> CHR ''/'') xs \<and>
   dropWhile (\<lambda>c. c \<noteq> CHR '':'' \<and> c \<noteq> CHR ''/'') xs = dropWhile (\<lambda>c. c \<noteq> CHR ''/'') xs"
  by (induction xs) (auto split: if_splits)

text \<open>What a successful match of the reference expression says about its captures.\<close>

lemma ReferenceRegexp_parts:
  assumes "ReferenceRegexp s = Some (n, t, g)"
  shows "anchoredNameRegexp n \<noteq> None \<and> (t = [] \<or> isTag t) \<and> (g = [] \<or> isDigestRegexp g) \<and>
         (\<exists>r. s = n @ r)"
proof -
  let ?pre = "takeWhile (\<lambda>c. c \<noteq> CHR ''@'') s"
  let ?at = "dropWhile (\<lambda>c. c \<noteq> CHR ''@'') s"
  let ?rtag = "takeWhile (\<lambda>c. c \<noteq> CHR '':'' \<and> c \<noteq> CHR ''/'') (rev ?pre)"
  let ?rname = "dropWhile (\<lambda>c. c \<noteq> CHR '':'' \<and> c \<noteq> CHR ''/'') (rev ?pre)"
  let ?hasTag = "?rname \<noteq> [] \<and> hd ?rname = CHR '':''"
  from assms have n: "n = (if ?hasTag then rev (tl ?rname) else ?pre)"
    and t: "t = (if ?hasTag then rev ?rtag else [])"
    and g: "g = (if ?at = [] then [] else tl ?at)"
    and ok: "anchoredNameRegexp n \<noteq> None" "if ?hasTag then isTag t else True"
      "if ?at = [] then True else isDigestRegexp g"
    by (auto simp: ReferenceRegexp_def Let_def split: if_splits)
  have s: "s = ?pre @ ?at" by simp
  have "\<exists>r. ?pre = n @ r"
  proof (cases ?hasTag)
    case True
    have "rev ?pre = ?rtag @ ?rname" by simp
    then have "?pre = rev ?rname @ rev ?rtag" by (metis rev_append rev_rev_ident)
    moreover from True have "?rname \<noteq> []" by (rule conjunct1)
    then have "hd ?rname # tl ?rname = ?rname" by (rule list.collapse)
    then have "rev ?rname = rev (tl ?rname) @ [hd ?rname]" by (metis rev.simps(2))
    ultimately have "?pre = rev (tl ?rname) @ ([hd ?rname] @ rev ?rtag)" by simp
    with True n show ?thesis by auto
  next
    case False
    with n show ?thesis by auto
  qed
  then obtain r where "?pre = n @ r" by blast
  with s have "s = n @ (r @ ?at)" by (metis append.assoc)
  then have "\<exists>r. s = n @ r" by blast
  moreover from t ok(2) have "t = [] \<or> isTag t" by (auto split: if_splits)
  moreover from g ok(3) have "g = [] \<or> isDigestRegexp g" by (auto split: if_splits)
  ultimately show ?thesis using ok(1) by blast
qed

lemma ReferenceRegexp_untagged:
  assumes "takeWhile (\<lambda>c. c \<noteq> CHR ''@'') s = pre"
    and "dropWhile (\<lambda>c. c \<noteq> CHR ''@'') s = at"
    and "dropWhile (\<lambda>c. c \<noteq> CHR '':'' \<and> c \<noteq> CHR ''/'') (rev pre) = rname"
    and "rname = [] \<or> hd rname \<noteq> CHR '':''"
  shows "ReferenceRegexp s =
           (if anchoredNameRegexp pre \<noteq> None \<and> (if at = [] then True else isDigestRegexp (tl at))
            then Some (pre, [], if at = [] then [] else tl at) else None)"
proof -
  from assms(4) have "\<not> (rname \<noteq> [] \<and> hd rname = CHR '':'')" by blast
  then show ?thesis
    unfolding ReferenceRegexp_def Let_def assms(1) assms(2) assms(3)
    by (simp only: if_False if_True, cases "at = []", simp_all)
qed

lemma ReferenceRegexp_tagged:
  assumes "takeWhile (\<lambda>c. c \<noteq> CHR ''@'') s = pre"
    and "dropWhile (\<lambda>c. c \<noteq> CHR ''@'') s = at"
    and "takeWhile (\<lambda>c. c \<noteq> CHR '':'' \<and> c \<noteq> CHR ''/'') (rev pre) = rtag"
    and "dropWhile (\<lambda>c. c \<noteq> CHR '':'' \<and> c \<noteq> CHR ''/'') (rev pre) = CHR '':'' # rn"
  shows "ReferenceRegexp s =
           (if anchoredNameRegexp (rev rn) \<noteq> None \<and> isTag (rev rtag) \<and>
               (if at = [] then True else isDigestRegexp (tl at))
            then Some (rev rn, rev rtag, if at = [] then [] else tl at) else None)"
  unfolding ReferenceRegexp_def Let_def assms(1) assms(2) assms(3) assms(4)
  by simp

lemma ReferenceRegexp_build:
  assumes name: "anchoredNameRegexp n = Some (d, p)"
    and tag: "t = [] \<or> isTag t"
    and dig: "g = [] \<or> isDigestRegexp g"
  shows "ReferenceRegexp (n @ tagPart t @ digestPart g) = Some (n, t, g)"
proof -
  let ?s = "n @ tagPart t @ digestPart g"
  let ?P = "\<lambda>c. c \<noteq> CHR ''@''"
  let ?Q = "\<lambda>c. c \<noteq> CHR '':'' \<and> c \<noteq> CHR ''/''"
  have n_at: "CHR ''@'' \<notin> set n" using name by (rule anchoredNameRegexp_no_at)
  have t_plain: "\<And>x. x \<in> set t \<Longrightarrow> x \<noteq> CHR ''@'' \<and> x \<noteq> CHR '':'' \<and> x \<noteq> CHR ''/''"
    using tag isTag_plain [of t] by auto
  have front: "\<forall>x \<in> set (n @ tagPart t). ?P x"
    using n_at t_plain by (auto simp: tagPart_def)
  have pre: "takeWhile ?P ?s = n @ tagPart t"
  proof (cases "g = []")
    case True
    with front show ?thesis by (simp add: digestPart_def)
  next
    case False
    then have "?s = (n @ tagPart t) @ CHR ''@'' # g" by (simp add: digestPart_def)
    moreover have "takeWhile ?P ((n @ tagPart t) @ CHR ''@'' # g) = n @ tagPart t"
      using front by (simp add: takeWhile_append)
    ultimately show ?thesis by simp
  qed
  have at: "dropWhile ?P ?s = digestPart g"
  proof (cases "g = []")
    case True
    with front show ?thesis by (simp add: digestPart_def)
  next
    case False
    then have "?s = (n @ tagPart t) @ CHR ''@'' # g" by (simp add: digestPart_def)
    moreover have "dropWhile ?P ((n @ tagPart t) @ CHR ''@'' # g) = CHR ''@'' # g"
      using front by (simp add: dropWhile_append)
    ultimately show ?thesis using False by (simp add: digestPart_def)
  qed
  have dg: "(if digestPart g = [] then [] else tl (digestPart g)) = g"
    by (simp add: digestPart_def)
  have dgok: "(if digestPart g = [] then True else isDigestRegexp (tl (digestPart g)))"
    using dig by (auto simp: digestPart_def)
  have lastseg: "CHR '':'' \<notin> set (takeWhile (\<lambda>c. c \<noteq> CHR ''/'') (rev n))"
    using name by (rule anchoredNameRegexp_last_segment)
  from name have nn: "anchoredNameRegexp n \<noteq> None" by simp
  show ?thesis
  proof (cases "t = []")
    case True
    then have pre': "takeWhile ?P ?s = n" using pre by (simp add: tagPart_def)
    from takeWhile_tag_boundary [OF lastseg]
    have dw: "dropWhile ?Q (rev n) = dropWhile (\<lambda>c. c \<noteq> CHR ''/'') (rev n)" by (rule conjunct2)
    have "dropWhile (\<lambda>c. c \<noteq> CHR ''/'') (rev n) = [] \<or>
          hd (dropWhile (\<lambda>c. c \<noteq> CHR ''/'') (rev n)) = CHR ''/''"
      using hd_dropWhile [of "\<lambda>c. c \<noteq> CHR ''/''" "rev n"] by blast
    then have no: "dropWhile (\<lambda>c. c \<noteq> CHR ''/'') (rev n) = [] \<or>
          hd (dropWhile (\<lambda>c. c \<noteq> CHR ''/'') (rev n)) \<noteq> CHR '':''" by auto
    from ReferenceRegexp_untagged [OF pre' at dw no] nn dgok dg True
    show ?thesis by (cases "g = []") (simp_all add: digestPart_def tagPart_def)
  next
    case False
    with tag have it: "isTag t" by simp
    have rv: "rev (n @ tagPart t) = rev t @ CHR '':'' # rev n"
      using False by (simp add: tagPart_def)
    have allQ: "\<forall>x \<in> set (rev t). ?Q x" using t_plain by auto
    have tw: "takeWhile ?Q (rev (n @ tagPart t)) = rev t"
      unfolding rv using allQ by (simp add: takeWhile_append)
    have dw: "dropWhile ?Q (rev (n @ tagPart t)) = CHR '':'' # rev n"
      unfolding rv using allQ by (simp add: dropWhile_append)
    from ReferenceRegexp_tagged [OF pre at tw dw] nn dgok dg it
    show ?thesis by (cases "g = []") (simp_all add: digestPart_def)
  qed
qed

subsection \<open>Claims on a single image string\<close>

lemma empty_image_fails:
  "newImageInfo reference_Parse [] [] = Inl ''bad image: docker.io/: invalid reference format''"
  by code_simp

lemma addDefaultDomain_empty: "addDefaultDomain [] = ''docker.io/''"
  by code_simp

lemma parse_default_empty_fails: "reference_Parse ''docker.io/'' = Inl ''invalid reference format''"
  by code_simp

text \<open>
  C10. A container entry whose "image" field is absent and whose "name" is a string never
  produces an inventory entry: the image string is empty, domain defaulting turns it into
  "docker.io/", the reference grammar rejects that string, and the loop goes on with the
  images unchanged and the entry's parse error added to the errors, which ends up in the
  aggregate error.
\<close>

theorem absent_image_is_parse_error:
  "map_of container ''name'' = Some (JString name) \<Longrightarrow> map_of container ''image'' = None \<Longrightarrow>
   addDefaultDomain [] = ''docker.io/'' \<and>
   reference_Parse ''docker.io/'' = Inl ''invalid reference format'' \<and>
   convertLoop reference_Parse jsonPath (JObject container # rest) idx images errs
     = convertLoop reference_Parse jsonPath rest idx images
         (errs @ [''bad image: docker.io/: invalid reference format'']) \<and>
   convertToImageInfo reference_Parse [JObject container] jsonPath
     = Inr ([], Some ''bad image: docker.io/: invalid reference format'')"
proof -
  assume n: "map_of container ''name'' = Some (JString name)"
    and i: "map_of container ''image'' = None"
  have f: "newImageInfo reference_Parse [] jp
             = Inl ''bad image: docker.io/: invalid reference format''" for jp
    using empty_image_fails by (rule newImageInfo_pointer_Inl)
  have step: "convertLoop reference_Parse jsonPath (JObject container # rest) idx images errs
     = convertLoop reference_Parse jsonPath rest idx images
         (errs @ [''bad image: docker.io/: invalid reference format''])"
    for rest idx images errs
    using n i by (simp add: f)
  have "convertToImageInfo reference_Parse [JObject container] jsonPath
     = Inr ([], Some ''bad image: docker.io/: invalid reference format'')"
    unfolding convertToImageInfo_def step by simp
  with step addDefaultDomain_empty parse_default_empty_fails show ?thesis by blast
qed

theorem absent_image_is_parse_error_witness:
  "convertToImageInfo reference_Parse [JObject [(''name'', JString ''a'')]] ''/spec/containers''
     = Inr ([], Some ''bad image: docker.io/: invalid reference format'')"
  using absent_image_is_parse_error [of "[(''name'', JString ''a'')]" "''a''" "''/spec/containers''"]
  by simp

text \<open>
  C7. Tag defaulting: whenever the parser accepts the (domain-defaulted) image string and the
  reference carries neither a tag nor a digest, newImageInfo succeeds with tag "latest";
  and "busybox" yields registry "docker.io", path "busybox", name "busybox", tag "latest"
  and an empty digest.
\<close>

lemma busybox_parses:
  "newImageInfo reference_Parse ''busybox'' []
     = Inr \<lparr>Registry = ''docker.io'', Name = ''busybox'', Path = ''busybox'',
            Tag = ''latest'', Digest = [], JSONPointer = []\<rparr>"
  by code_simp

theorem tag_defaults_to_latest:
  "(parse (addDefaultDomain img) = Inr ref \<and>
    (tagged ref = None \<or> tagged ref = Some []) \<and>
    (digested ref = None \<or> digested ref = Some []) \<longrightarrow>
      (\<exists>i. newImageInfo parse img jp = Inr i \<and> Tag i = ''latest'' \<and> Digest i = [])) \<and>
   newImageInfo reference_Parse ''busybox'' jp
     = Inr \<lparr>Registry = ''docker.io'', Name = ''busybox'', Path = ''busybox'',
            Tag = ''latest'', Digest = [], JSONPointer = jp\<rparr>"
proof (intro conjI impI)
  assume "parse (addDefaultDomain img) = Inr ref \<and>
    (tagged ref = None \<or> tagged ref = Some []) \<and>
    (digested ref = None \<or> digested ref = Some [])"
  then show "\<exists>i. newImageInfo parse img jp = Inr i \<and> Tag i = ''latest'' \<and> Digest i = []"
    by (auto simp: newImageInfo_def Let_def)
next
  show "newImageInfo reference_Parse ''busybox'' jp
     = Inr \<lparr>Registry = ''docker.io'', Name = ''busybox'', Path = ''busybox'',
            Tag = ''latest'', Digest = [], JSONPointer = jp\<rparr>"
    using newImageInfo_pointer_Inr [OF busybox_parses, of jp] by simp
qed

lemma parse_nginx: "reference_Parse (addDefaultDomain ''nginx'') = Inr (Reference (Some (''docker.io'', ''nginx'')) None None)"
  by code_simp

theorem tag_defaults_to_latest_witness:
  "\<exists>i. newImageInfo reference_Parse ''nginx'' ''/spec/containers/0/image'' = Inr i \<and>
       Tag i = ''latest'' \<and> Digest i = []"
  using tag_defaults_to_latest [where parse = reference_Parse and img = "''nginx''"
      and jp = "''/spec/containers/0/image''"
      and ref = "Reference (Some (''docker.io'', ''nginx'')) None None"]
    parse_nginx
  by simp

subsection \<open>Domain defaulting, once more\<close>

lemma addDefaultDomain_eq:
  "addDefaultDomain s =
     (if CHR ''/'' \<notin> set s \<or> unqualified (takeWhile (\<lambda>c. c \<noteq> CHR ''/'') s)
      then ''docker.io/'' @ s else s)"
proof (cases "CHR ''/'' \<in> set s")
  case False
  then have "IndexRune s (CHR ''/'') = - 1" by (simp add: IndexRune_none)
  with False show ?thesis by (simp add: addDefaultDomain_def addDefaultDomainWith_def)
next
  case True
  then have ne: "IndexRune s (CHR ''/'') \<noteq> - 1" by (simp add: IndexRune_none)
  have seg: "sliceTo s (IndexRune s (CHR ''/'')) = takeWhile (\<lambda>c. c \<noteq> CHR ''/'') s"
    using True by (rule sliceTo_IndexRune)
  show ?thesis
    unfolding addDefaultDomain_def addDefaultDomainWith_def Let_def seg ContainsAny_dot_colon
      unqualified_def
    using True ne by auto
qed

lemma addDefaultDomain_qualified:
  "CHR ''/'' \<in> set (addDefaultDomain s) \<and>
   \<not> unqualified (takeWhile (\<lambda>c. c \<noteq> CHR ''/'') (addDefaultDomain s))"
proof (cases "CHR ''/'' \<notin> set s \<or> unqualified (takeWhile (\<lambda>c. c \<noteq> CHR ''/'') s)")
  case True
  then have "addDefaultDomain s = ''docker.io/'' @ s" by (simp add: addDefaultDomain_eq)
  then show ?thesis by (simp add: unqualified_def)
next
  case False
  then have "addDefaultDomain s = s" by (simp add: addDefaultDomain_eq)
  with False show ?thesis by simp
qed

lemma addDefaultDomain_fixed:
  "CHR ''/'' \<in> set s \<Longrightarrow> \<not> unqualified (takeWhile (\<lambda>c. c \<noteq> CHR ''/'') s) \<Longrightarrow>
   addDefaultDomain s = s"
  by (simp add: addDefaultDomain_eq)

lemma digest_Parse_same: "digest_Parse g = Inr x \<Longrightarrow> x = g"
  by (auto simp: digest_Parse_def Let_def split: if_splits option.splits)

subsection \<open>What a successful parse gives\<close>

lemma reference_Parse_Inr:
  assumes "reference_Parse s = Inr ref"
  shows "\<exists>n t g d p. ReferenceRegexp s = Some (n, t, g) \<and> length n \<le> 255 \<and>
           anchoredNameRegexp n = Some (d, p) \<and> (g = [] \<or> digest_Parse g = Inr g) \<and>
           getBestReferenceType d p t g = Some ref"
proof (cases "ReferenceRegexp s")
  case None
  with assms show ?thesis by (simp add: reference_Parse_def split: if_splits)
next
  case (Some ntg)
  obtain n t g where ntg: "ntg = (n, t, g)" by (cases ntg) auto
  with Some have rr: "ReferenceRegexp s = Some (n, t, g)" by simp
  from ReferenceRegexp_parts [OF rr] obtain d p where an: "anchoredNameRegexp n = Some (d, p)"
    by auto
  show ?thesis
  proof (cases "255 < length n")
    case True
    with assms rr show ?thesis by (simp add: reference_Parse_def)
  next
    case False
    then have len: "length n \<le> 255" by simp
    from assms rr False an have
      body: "(case (if g \<noteq> [] then digest_Parse g else Inr []) of
                Inl err \<Rightarrow> Inl err
              | Inr digest \<Rightarrow>
                  (case getBestReferenceType d p t digest of
                     None \<Rightarrow> Inl ErrNameEmpty
                   | Some r \<Rightarrow> Inr r)) = Inr ref"
      by (simp add: reference_Parse_def)
    show ?thesis
    proof (cases "g = []")
      case True
      with body have "(case getBestReferenceType d p t [] of
                     None \<Rightarrow> Inl ErrNameEmpty
                   | Some r \<Rightarrow> Inr r) = Inr ref" by simp
      then have "getBestReferenceType d p t [] = Some ref"
        by (cases "getBestReferenceType d p t []") simp_all
      with rr len an True show ?thesis by blast
    next
      case False
      show ?thesis
      proof (cases "digest_Parse g")
        case (Inl e)
        with body False show ?thesis by simp
      next
        case (Inr dg)
        then have dgg: "dg = g" by (rule digest_Parse_same)
        from body False Inr dgg have "(case getBestReferenceType d p t g of
                     None \<Rightarrow> Inl ErrNameEmpty
                   | Some r \<Rightarrow> Inr r) = Inr ref" by simp
        then have "getBestReferenceType d p t g = Some ref"
          by (cases "getBestReferenceType d p t g") simp_all
        with rr len an Inr dgg show ?thesis by blast
      qed
    qed
  qed
qed

lemma getBestReferenceType_named:
  assumes "getBestReferenceType d p t g = Some ref" and "named ref \<noteq> None"
  shows "ref = Reference (Some (d, p)) (if t = [] then None else Some t)
           (if g = [] then None else Some g)"
proof (cases "(if d = [] then p else d @ ''/'' @ p) = []")
  case True
  with assms(1) have "ref = Reference None None (Some g)"
    by (cases "g = []") (simp_all add: getBestReferenceType_def)
  with assms(2) show ?thesis by simp
next
  case False
  with assms(1) show ?thesis
    by (cases "t = []"; cases "g = []") (simp_all add: getBestReferenceType_def)
qed

lemma newImageInfo_Inr:
  assumes "newImageInfo parse R jp = Inr i"
  shows "\<exists>ref. parse (addDefaultDomain R) = Inr ref \<and>
           Registry i = (case named ref of Some (d, p) \<Rightarrow> d | None \<Rightarrow> []) \<and>
           Path i = (case named ref of Some (d, p) \<Rightarrow> p | None \<Rightarrow> []) \<and>
           Name i = (case named ref of
                       Some (d, p) \<Rightarrow> sliceFrom p (LastIndex p (CHR ''/'') + 1)
                     | None \<Rightarrow> []) \<and>
           Digest i = (case digested ref of Some d \<Rightarrow> d | None \<Rightarrow> []) \<and>
           Tag i = (if (case digested ref of Some d \<Rightarrow> d | None \<Rightarrow> []) = [] \<and>
                       (case tagged ref of Some t \<Rightarrow> t | None \<Rightarrow> []) = []
                    then ''latest''
                    else (case tagged ref of Some t \<Rightarrow> t | None \<Rightarrow> [])) \<and>
           JSONPointer i = jp"
proof (cases "parse (addDefaultDomain R)")
  case (Inl e)
  with assms show ?thesis by (simp add: newImageInfo_def Let_def)
next
  case (Inr ref)
  with assms have "i = \<lparr>Registry = (case named ref of Some (d, p) \<Rightarrow> d | None \<Rightarrow> []),
                  Name = (case named ref of
                            Some (d, p) \<Rightarrow> sliceFrom p (LastIndex p (CHR ''/'') + 1)
                          | None \<Rightarrow> []),
                  Path = (case named ref of Some (d, p) \<Rightarrow> p | None \<Rightarrow> []),
                  Tag = (if (case digested ref of Some d \<Rightarrow> d | None \<Rightarrow> []) = [] \<and>
                            (case tagged ref of Some t \<Rightarrow> t | None \<Rightarrow> []) = []
                         then ''latest''
                         else (case tagged ref of Some t \<Rightarrow> t | None \<Rightarrow> [])),
                  Digest = (case digested ref of Some d \<Rightarrow> d | None \<Rightarrow> []),
                  JSONPointer = jp\<rparr>"
    by (simp add: newImageInfo_def Let_def)
  then have "Registry i = (case named ref of Some (d, p) \<Rightarrow> d | None \<Rightarrow> []) \<and>
           Path i = (case named ref of Some (d, p) \<Rightarrow> p | None \<Rightarrow> []) \<and>
           Name i = (case named ref of
                       Some (d, p) \<Rightarrow> sliceFrom p (LastIndex p (CHR ''/'') + 1)
                     | None \<Rightarrow> []) \<and>
           Digest i = (case digested ref of Some d \<Rightarrow> d | None \<Rightarrow> []) \<and>
           Tag i = (if (case digested ref of Some d \<Rightarrow> d | None \<Rightarrow> []) = [] \<and>
                       (case tagged ref of Some t \<Rightarrow> t | None \<Rightarrow> []) = []
                    then ''latest''
                    else (case tagged ref of Some t \<Rightarrow> t | None \<Rightarrow> [])) \<and>
           JSONPointer i = jp"
    by simp
  with Inr show ?thesis by blast
qed

lemma newImageInfo_success:
  assumes "newImageInfo reference_Parse R jp = Inr i" and "Registry i \<noteq> []"
  shows "\<exists>n t g p. ReferenceRegexp (addDefaultDomain R) = Some (n, t, g) \<and> length n \<le> 255 \<and>
           anchoredNameRegexp n = Some (Registry i, p) \<and> (g = [] \<or> digest_Parse g = Inr g) \<and>
           Path i = p \<and> Name i = sliceFrom p (LastIndex p (CHR ''/'') + 1) \<and>
           Tag i = (if g = [] \<and> t = [] then ''latest'' else t) \<and> Digest i = g \<and>
           JSONPointer i = jp"
proof -
  from newImageInfo_Inr [OF assms(1)] obtain ref where
    ref: "reference_Parse (addDefaultDomain R) = Inr ref"
    and reg: "Registry i = (case named ref of Some (d, p) \<Rightarrow> d | None \<Rightarrow> [])"
    and path: "Path i = (case named ref of Some (d, p) \<Rightarrow> p | None \<Rightarrow> [])"
    and name: "Name i = (case named ref of
                       Some (d, p) \<Rightarrow> sliceFrom p (LastIndex p (CHR ''/'') + 1)
                     | None \<Rightarrow> [])"
    and dig: "Digest i = (case digested ref of Some d \<Rightarrow> d | None \<Rightarrow> [])"
    and tag: "Tag i = (if (case digested ref of Some d \<Rightarrow> d | None \<Rightarrow> []) = [] \<and>
                       (case tagged ref of Some t \<Rightarrow> t | None \<Rightarrow> []) = []
                    then ''latest''
                    else (case tagged ref of Some t \<Rightarrow> t | None \<Rightarrow> []))"
    and jp: "JSONPointer i = jp"
    by blast
  from reference_Parse_Inr [OF ref] obtain n t g d p where
    rr: "ReferenceRegexp (addDefaultDomain R) = Some (n, t, g)" and len: "length n \<le> 255"
    and an: "anchoredNameRegexp n = Some (d, p)" and gok: "g = [] \<or> digest_Parse g = Inr g"
    and best: "getBestReferenceType d p t g = Some ref"
    by blast
  from reg assms(2) have "named ref \<noteq> None" by (cases "named ref") simp_all
  from getBestReferenceType_named [OF best this]
  have r: "ref = Reference (Some (d, p)) (if t = [] then None else Some t)
      (if g = [] then None else Some g)" .
  have "Registry i = d" using reg r by simp
  moreover have "Path i = p" using path r by simp
  moreover have "Name i = sliceFrom p (LastIndex p (CHR ''/'') + 1)" using name r by simp
  moreover have "Digest i = g" using dig r by simp
  moreover have "Tag i = (if g = [] \<and> t = [] then ''latest'' else t)" using tag r by simp
  ultimately show ?thesis using rr len an gok jp by blast
qed

lemma newImageInfo_build:
  assumes "addDefaultDomain X = X" and "ReferenceRegexp X = Some (n, t, g)"
    and "length n \<le> 255" and "anchoredNameRegexp n = Some (d, p)" and "d \<noteq> []"
    and "g = [] \<or> digest_Parse g = Inr g"
  shows "newImageInfo reference_Parse X jp
           = Inr \<lparr>Registry = d, Name = sliceFrom p (LastIndex p (CHR ''/'') + 1), Path = p,
                  Tag = (if g = [] \<and> t = [] then ''latest'' else t), Digest = g,
                  JSONPointer = jp\<rparr>"
proof -
  have best: "getBestReferenceType d p t g
      = Some (Reference (Some (d, p)) (if t = [] then None else Some t)
           (if g = [] then None else Some g))"
    using assms(5) by (simp add: getBestReferenceType_def)
  have "reference_Parse X
      = Inr (Reference (Some (d, p)) (if t = [] then None else Some t)
           (if g = [] then None else Some g))"
    using assms(2,3,4,6) best by (auto simp: reference_Parse_def)
  then show ?thesis
    using assms(1) by (simp add: newImageInfo_def Let_def)
qed

subsection \<open>The round trip through the canonical string\<close>

lemma roundtrip_core:
  assumes ok: "newImageInfo reference_Parse R jp = Inr i" and reg: "Registry i \<noteq> []"
  shows "newImageInfo reference_Parse (String i) jp'
           = Inr (i\<lparr>Tag := (if Digest i = [] then Tag i else []), JSONPointer := jp'\<rparr>)"
proof -
  let ?s = "addDefaultDomain R"
  let ?d = "Registry i"
  from newImageInfo_success [OF ok reg] obtain n t g p where
    rr: "ReferenceRegexp ?s = Some (n, t, g)" and len: "length n \<le> 255"
    and an: "anchoredNameRegexp n = Some (?d, p)" and gok: "g = [] \<or> digest_Parse g = Inr g"
    and path: "Path i = p" and name: "Name i = sliceFrom p (LastIndex p (CHR ''/'') + 1)"
    and tag: "Tag i = (if g = [] \<and> t = [] then ''latest'' else t)" and dig: "Digest i = g"
    by blast
  from ReferenceRegexp_parts [OF rr] obtain r where
    tok: "t = [] \<or> isTag t" and gre: "g = [] \<or> isDigestRegexp g" and s: "?s = n @ r"
    by blast
  from anchoredNameRegexp_domain [OF an reg] have n: "n = ?d @ ''/'' @ p"
    and dslash: "CHR ''/'' \<notin> set ?d" by simp_all
  have first: "takeWhile (\<lambda>c. c \<noteq> CHR ''/'') (?d @ ''/'' @ rest) = ?d" for rest
    using dslash by (simp add: takeWhile_append)
  have "?s = ?d @ ''/'' @ (p @ r)" using s n by simp
  then have "takeWhile (\<lambda>c. c \<noteq> CHR ''/'') ?s = ?d" using first by simp
  with addDefaultDomain_qualified [of R] have q: "\<not> unqualified ?d" by simp
  define T where "T = (if g = [] then Tag i else [])"
  have Tok: "T = [] \<or> isTag T"
    using tok tag isTag_latest by (auto simp: T_def)
  have X: "String i = n @ tagPart T @ digestPart g"
  proof (cases "g = []")
    case True
    then have "T \<noteq> []" using tag by (auto simp: T_def)
    with True show ?thesis
      using path dig n by (simp add: String_def T_def tagPart_def digestPart_def)
  next
    case False
    then show ?thesis
      using path dig n by (simp add: String_def T_def tagPart_def digestPart_def)
  qed
  have "String i = ?d @ ''/'' @ (p @ tagPart T @ digestPart g)" using X n by simp
  then have "CHR ''/'' \<in> set (String i)"
    and "takeWhile (\<lambda>c. c \<noteq> CHR ''/'') (String i) = ?d"
    using first by simp_all
  with q have fixed: "addDefaultDomain (String i) = String i"
    by (simp add: addDefaultDomain_fixed)
  have rrX: "ReferenceRegexp (String i) = Some (n, T, g)"
    unfolding X using an Tok gre by (rule ReferenceRegexp_build)
  from newImageInfo_build [OF fixed rrX len an reg gok, of jp']
  have "newImageInfo reference_Parse (String i) jp'
           = Inr \<lparr>Registry = ?d, Name = sliceFrom p (LastIndex p (CHR ''/'') + 1), Path = p,
                  Tag = (if g = [] \<and> T = [] then ''latest'' else T), Digest = g,
                  JSONPointer = jp'\<rparr>" .
  moreover have "(if g = [] \<and> T = [] then ''latest'' else T) = (if Digest i = [] then Tag i else [])"
    using tag dig by (auto simp: T_def)
  moreover have "i\<lparr>Tag := (if Digest i = [] then Tag i else []), JSONPointer := jp'\<rparr>
      = \<lparr>Registry = ?d, Name = sliceFrom p (LastIndex p (CHR ''/'') + 1), Path = p,
                  Tag = (if Digest i = [] then Tag i else []), Digest = g,
                  JSONPointer = jp'\<rparr>"
    using path dig name by simp
  ultimately show ?thesis by simp
qed

text \<open>
  C4 (as amended). Round trip: for every reference string \<open>R\<close> that newImageInfo accepts
  with a non-empty registry, rendering the result to its canonical string and parsing that
  string again succeeds, with the same registry, path, name and digest. The tag is the same
  too unless the reference carries both a tag and a digest: the canonical string of such a
  reference omits the tag, and the tag parsed from it is empty.
\<close>

theorem canonical_roundtrip:
  assumes "newImageInfo reference_Parse R jp = Inr i" and "Registry i \<noteq> []"
  shows "\<exists>i'. newImageInfo reference_Parse (String i) jp' = Inr i' \<and>
           Registry i' = Registry i \<and> Path i' = Path i \<and> Name i' = Name i \<and>
           Digest i' = Digest i \<and>
           Tag i' = (if Digest i = [] then Tag i else []) \<and>
           (Tag i = [] \<or> Digest i = [] \<longrightarrow> Tag i' = Tag i)"
proof -
  from roundtrip_core [OF assms, of jp']
  have "newImageInfo reference_Parse (String i) jp'
          = Inr (i\<lparr>Tag := (if Digest i = [] then Tag i else []), JSONPointer := jp'\<rparr>)" .
  then show ?thesis by auto
qed

theorem canonical_roundtrip_witness:
  "\<exists>i'. newImageInfo reference_Parse ''docker.io/busybox:latest'' ''/spec/containers/0/image''
          = Inr i' \<and>
        Registry i' = ''docker.io'' \<and> Path i' = ''busybox'' \<and> Name i' = ''busybox'' \<and>
        Digest i' = [] \<and> Tag i' = ''latest''"
  using canonical_roundtrip [OF busybox_parses, of "''/spec/containers/0/image''"]
  by (simp add: String_def)

text \<open>
  The claim as stated, for every accepted reference and with the tag included, fails in two
  ways. A reference with a tag and a digest comes back without its tag. And a reference whose
  first segment has a '.' but is no domain of the grammar (it has a '_') parses with an empty
  registry; its canonical string starts with '/', and is rejected when parsed again.
\<close>

theorem canonical_roundtrip_counterexample:
  "newImageInfo reference_Parse
     ''busybox:v1@sha256:0123456789abcdef0123456789abcdef0123456789abcdef0123456789abcdef'' []
     = Inr \<lparr>Registry = ''docker.io'', Name = ''busybox'', Path = ''busybox'', Tag = ''v1'',
            Digest = ''sha256:0123456789abcdef0123456789abcdef0123456789abcdef0123456789abcdef'',
            JSONPointer = []\<rparr> \<and>
   newImageInfo reference_Parse
     (String \<lparr>Registry = ''docker.io'', Name = ''busybox'', Path = ''busybox'', Tag = ''v1'',
            Digest = ''sha256:0123456789abcdef0123456789abcdef0123456789abcdef0123456789abcdef'',
            JSONPointer = []\<rparr>) []
     = Inr \<lparr>Registry = ''docker.io'', Name = ''busybox'', Path = ''busybox'', Tag = [],
            Digest = ''sha256:0123456789abcdef0123456789abcdef0123456789abcdef0123456789abcdef'',
            JSONPointer = []\<rparr> \<and>
   newImageInfo reference_Parse ''a_b.c/d'' []
     = Inr \<lparr>Registry = [], Name = ''d'', Path = ''a_b.c/d'', Tag = ''latest'', Digest = [],
            JSONPointer = []\<rparr> \<and>
   newImageInfo reference_Parse
     (String \<lparr>Registry = [], Name = ''d'', Path = ''a_b.c/d'', Tag = ''latest'', Digest = [],
            JSONPointer = []\<rparr>) []
     = Inl ''bad image: docker.io//a_b.c/d:latest: invalid reference format''"
  by code_simp

subsection \<open>Claims on patches and on traversal\<close>

lemma appendPatches_map:
  "appendPatches patches m
     = patches @ map (\<lambda>info. buildJSONPatch ''replace'' (JSONPointer info) (String info)) (map snd m)"
  by (induction m arbitrary: patches) auto

text \<open>
  C9. Patch building: the mutate step emits exactly one operation per ImageInfo of the three
  maps, of the form \<^verbatim>\<open>{ "op": "replace", "path": "P", "value":"V" }\<close> with \<open>P\<close> the
  JSONPointer of that ImageInfo and \<open>V\<close> its canonical string, and this list of operations is
  what it applies to the input bytes: a failure of the application is its error, with the
  context as it was, and the patched bytes are what it puts into the context. For an inventory
  without images no operation is emitted, the input bytes go unchanged into the context, and
  there is no error. A context without inventory is left as it is, with no error.
\<close>

theorem buildPatches_one_per_image:
  \<open>buildPatches images
     = map (\<lambda>info. ''{ "op": "replace", "path": "'' @ JSONPointer info @
                      ''", "value":"'' @ String info @ ''" }'')
         (map snd (Containers images) @ map snd (InitContainers images) @
          map snd (EphemeralContainers images)) \<and>
   length (buildPatches images)
     = length (Containers images) + length (InitContainers images) +
       length (EphemeralContainers images) \<and>
   (imageInfoOf ctx = Some images \<and> applyPatches raw (buildPatches images) = Inl err \<longrightarrow>
      MutateResourceWithImageInfo applyPatches addResource imageInfoOf raw ctx = (ctx, Some err)) \<and>
   (imageInfoOf ctx = Some images \<and> applyPatches raw (buildPatches images) = Inr patched \<longrightarrow>
      MutateResourceWithImageInfo applyPatches addResource imageInfoOf raw ctx
        = addResource ctx patched) \<and>
   (InitContainers images = [] \<and> Containers images = [] \<and> EphemeralContainers images = [] \<longrightarrow>
      buildPatches images = [] \<and>
      MutateResourceWithImageInfo (ApplyPatches jsonpatch) AddResource ctxImages raw
          (c\<lparr>ctxImages := Some images\<rparr>)
        = (c\<lparr>ctxImages := Some images, ctxResource := raw\<rparr>, None)) \<and>
   (imageInfoOf ctx = None \<longrightarrow>
      MutateResourceWithImageInfo applyPatches addResource imageInfoOf raw ctx = (ctx, None))\<close>
proof -
  have ops: \<open>buildPatches images
     = map (\<lambda>info. ''{ "op": "replace", "path": "'' @ JSONPointer info @
                      ''", "value":"'' @ String info @ ''" }'')
         (map snd (Containers images) @ map snd (InitContainers images) @
          map snd (EphemeralContainers images))\<close>
    by (simp add: buildPatches_def appendPatches_map buildJSONPatch_def)
  have len: "length (buildPatches images)
     = length (Containers images) + length (InitContainers images) +
       length (EphemeralContainers images)"
    unfolding ops by simp
  have noop: "buildPatches images = [] \<and>
      MutateResourceWithImageInfo (ApplyPatches jsonpatch) AddResource ctxImages raw
          (c\<lparr>ctxImages := Some images\<rparr>)
        = (c\<lparr>ctxImages := Some images, ctxResource := raw\<rparr>, None)"
    if "InitContainers images = [] \<and> Containers images = [] \<and> EphemeralContainers images = []"
  proof -
    from that have e: "buildPatches images = []" unfolding ops by simp
    then show ?thesis
      by (simp add: MutateResourceWithImageInfo_def ApplyPatches_def AddResource_def)
  qed
  have fail: "MutateResourceWithImageInfo applyPatches addResource imageInfoOf raw ctx
        = (ctx, Some err)"
    if "imageInfoOf ctx = Some images \<and> applyPatches raw (buildPatches images) = Inl err"
    using that by (simp add: MutateResourceWithImageInfo_def)
  have pass: "MutateResourceWithImageInfo applyPatches addResource imageInfoOf raw ctx
        = addResource ctx patched"
    if "imageInfoOf ctx = Some images \<and> applyPatches raw (buildPatches images) = Inr patched"
    using that by (simp add: MutateResourceWithImageInfo_def)
  have nil: "MutateResourceWithImageInfo applyPatches addResource imageInfoOf raw ctx = (ctx, None)"
    if "imageInfoOf ctx = None"
    using that by (simp add: MutateResourceWithImageInfo_def)
  from ops len noop fail pass nil show ?thesis by blast
qed

theorem buildPatches_one_per_image_witness:
  \<open>(let images =
          \<lparr>InitContainers =
             [(''setup'', \<lparr>Registry = ''ghcr.io'', Name = ''init'', Path = ''org/init'', Tag = [],
                 Digest = ''sha256:0123456789abcdef0123456789abcdef0123456789abcdef0123456789abcdef'',
                 JSONPointer = ''/spec/initContainers/0/image''\<rparr>)],
           Containers =
             [(''app'', \<lparr>Registry = ''docker.io'', Name = ''busybox'', Path = ''busybox'',
                 Tag = ''latest'', Digest = [], JSONPointer = ''/spec/containers/0/image''\<rparr>)],
           EphemeralContainers = []\<rparr>;
        patches =
          [''{ "op": "replace", "path": "/spec/containers/0/image", "value":"docker.io/busybox:latest" }'',
           ''{ "op": "replace", "path": "/spec/initContainers/0/image", "value":"ghcr.io/org/init@sha256:0123456789abcdef0123456789abcdef0123456789abcdef0123456789abcdef" }'']
    in buildPatches images = patches \<and>
       MutateResourceWithImageInfo
           (\<lambda>raw ps. if ps = patches then Inr ''patched'' else Inl ''other patches'')
           AddResource ctxImages ''{}'' \<lparr>ctxImages = Some images, ctxResource = ''{}''\<rparr>
         = (\<lparr>ctxImages = Some images, ctxResource = ''patched''\<rparr>, None) \<and>
       MutateResourceWithImageInfo (\<lambda>raw ps. Inl ''no such path'')
           AddResource ctxImages ''{}'' \<lparr>ctxImages = Some images, ctxResource = ''{}''\<rparr>
         = (\<lparr>ctxImages = Some images, ctxResource = ''{}''\<rparr>, Some ''no such path'')) \<and>
   MutateResourceWithImageInfo (ApplyPatches (\<lambda>raw ps. Inl ''no such path'')) AddResource ctxImages
       ''{"kind":"Pod"}''
       \<lparr>ctxImages = Some \<lparr>InitContainers = [], Containers = [], EphemeralContainers = []\<rparr>,
        ctxResource = []\<rparr>
     = (\<lparr>ctxImages = Some \<lparr>InitContainers = [], Containers = [], EphemeralContainers = []\<rparr>,
         ctxResource = ''{"kind":"Pod"}''\<rparr>, None) \<and>
   MutateResourceWithImageInfo (ApplyPatches (\<lambda>raw ps. Inl ''no such path'')) AddResource ctxImages
       ''{"kind":"Pod"}'' \<lparr>ctxImages = None, ctxResource = []\<rparr>
     = (\<lparr>ctxImages = None, ctxResource = []\<rparr>, None)\<close>
proof -
  let ?images = "\<lparr>InitContainers =
             [(''setup'', \<lparr>Registry = ''ghcr.io'', Name = ''init'', Path = ''org/init'', Tag = [],
                 Digest = ''sha256:0123456789abcdef0123456789abcdef0123456789abcdef0123456789abcdef'',
                 JSONPointer = ''/spec/initContainers/0/image''\<rparr>)],
           Containers =
             [(''app'', \<lparr>Registry = ''docker.io'', Name = ''busybox'', Path = ''busybox'',
                 Tag = ''latest'', Digest = [], JSONPointer = ''/spec/containers/0/image''\<rparr>)],
           EphemeralContainers = []\<rparr>"
  let ?patches = \<open>[''{ "op": "replace", "path": "/spec/containers/0/image", "value":"docker.io/busybox:latest" }'',
           ''{ "op": "replace", "path": "/spec/initContainers/0/image", "value":"ghcr.io/org/init@sha256:0123456789abcdef0123456789abcdef0123456789abcdef0123456789abcdef" }'']\<close>
  let ?empty = "\<lparr>InitContainers = [], Containers = [], EphemeralContainers = []\<rparr>"
  let ?ok = "\<lambda>raw ps. if ps = ?patches then Inr ''patched'' else Inl ''other patches'' :: string + string"
  let ?ko = "\<lambda>(raw :: string) (ps :: string list). Inl ''no such path'' :: string + string"
  let ?ctx = "\<lparr>ctxImages = Some ?images, ctxResource = ''{}''\<rparr>"
  have ops: "buildPatches ?images = ?patches"
    using buildPatches_one_per_image [where images = ?images, THEN conjunct1]
    by (simp add: String_def)
  have pass: "MutateResourceWithImageInfo ?ok AddResource ctxImages ''{}'' ?ctx
      = (\<lparr>ctxImages = Some ?images, ctxResource = ''patched''\<rparr>, None)"
    using buildPatches_one_per_image
      [where images = ?images and imageInfoOf = ctxImages and ctx = ?ctx and applyPatches = ?ok
         and raw = "''{}''" and patched = "''patched''" and addResource = AddResource,
       THEN conjunct2, THEN conjunct2, THEN conjunct2, THEN conjunct1]
    unfolding ops by (simp add: AddResource_def)
  have fail: "MutateResourceWithImageInfo ?ko AddResource ctxImages ''{}'' ?ctx
      = (?ctx, Some ''no such path'')"
    using buildPatches_one_per_image
      [where images = ?images and imageInfoOf = ctxImages and ctx = ?ctx and applyPatches = ?ko
         and raw = "''{}''" and err = "''no such path''" and addResource = AddResource,
       THEN conjunct2, THEN conjunct2, THEN conjunct1]
    by simp
  have noop: \<open>MutateResourceWithImageInfo (ApplyPatches ?ko) AddResource ctxImages ''{"kind":"Pod"}''
       \<lparr>ctxImages = Some ?empty, ctxResource = []\<rparr>
     = (\<lparr>ctxImages = Some ?empty, ctxResource = ''{"kind":"Pod"}''\<rparr>, None)\<close>
    using buildPatches_one_per_image
      [where images = ?empty and jsonpatch = ?ko and raw = \<open>''{"kind":"Pod"}''\<close>
         and c = "\<lparr>ctxImages = None, ctxResource = []\<rparr>",
       THEN conjunct2, THEN conjunct2, THEN conjunct2, THEN conjunct2, THEN conjunct1]
    by simp
  have nil: \<open>MutateResourceWithImageInfo (ApplyPatches ?ko) AddResource ctxImages ''{"kind":"Pod"}''
       \<lparr>ctxImages = None, ctxResource = []\<rparr>
     = (\<lparr>ctxImages = None, ctxResource = []\<rparr>, None)\<close>
    using buildPatches_one_per_image
      [where imageInfoOf = ctxImages and ctx = "\<lparr>ctxImages = None, ctxResource = []\<rparr>"
         and applyPatches = "ApplyPatches ?ko" and addResource = AddResource
         and raw = \<open>''{"kind":"Pod"}''\<close>,
       THEN conjunct2, THEN conjunct2, THEN conjunct2, THEN conjunct2, THEN conjunct2]
    by simp
  from ops pass fail noop nil show ?thesis by (simp only: Let_def simp_thms)
qed

text \<open>
  C2. On a manifest whose kind is not in the table of extractors, extraction is expected to
  yield nothing. The table lookup gives the zero extractor, whose field list is empty, so the
  three list names are looked up at the top level of the manifest: a manifest of kind
  ConfigMap with a top-level "containers" list yields an image.
\<close>

theorem unknown_kind_top_level_containers:
  "extractImageInfo reference_Parse
     [(''kind'', JString ''ConfigMap''),
      (''containers'', JArray [JObject [(''name'', JString ''c''), (''image'', JString ''busybox'')]])]
   = Inr ([],
          [ContainerImage
             \<lparr>Registry = ''docker.io'', Name = ''busybox'', Path = ''busybox'',
              Tag = ''latest'', Digest = [], JSONPointer = ''/containers/0/image''\<rparr> ''c''],
          [])"
  by code_simp

text \<open>
  Without such top-level lists a manifest of a kind outside the table does yield nothing.
\<close>

lemma unknown_kind_without_top_level_lists:
  assumes "map_of extractors (GetKind resource) = None"
    and "NestedSlice resource [''initContainers''] = None"
    and "NestedSlice resource [''containers''] = None"
    and "NestedSlice resource [''ephemeralContainers''] = None"
  shows "extractImageInfo parse resource = Inr ([], [], [])"
  using assms by (simp add: extractImageInfo_def extractorFor_def imageExtractor_extract_def)

text \<open>
  C3. The document location of the element at position \<open>idx\<close> is expected to end in
  \<open>idx\<close>/image. The loop counts with its own variable, which a parse failure leaves as it
  is: in a Pod whose first container fails to parse, the second container (position 1) is
  given the location /spec/containers/0/image.
\<close>

theorem pointer_after_parse_failure:
  "extractImageInfo reference_Parse
     [(''kind'', JString ''Pod''),
      (''spec'', JObject [(''containers'', JArray
         [JObject [(''name'', JString ''a''), (''image'', JString ''!!'')],
          JObject [(''name'', JString ''b''), (''image'', JString ''busybox'')]])])]
   = Inr ([],
          [ContainerImage
             \<lparr>Registry = ''docker.io'', Name = ''busybox'', Path = ''busybox'',
              Tag = ''latest'', Digest = [], JSONPointer = ''/spec/containers/0/image''\<rparr> ''b''],
          [])"
  by code_simp

end
